theory Spec2Isabelle
  imports Complex_Main
begin

section \<open>Errors, the random generator and the computation type\<close>

text \<open>
  The program is \<^verbatim>\<open>src/ViT.py\<close>: five PyTorch modules (\<^verbatim>\<open>PatchEmbedding\<close>,
  \<^verbatim>\<open>Attention\<close>, \<^verbatim>\<open>MLP\<close>, \<^verbatim>\<open>Block\<close>, \<^verbatim>\<open>VisionTransformer\<close>), each with a
  constructor and a \<^verbatim>\<open>forward\<close> method. Every exception the program can raise is a value
  of \<open>error\<close>: \<open>ValueError\<close> is the explicit \<^verbatim>\<open>raise ValueError\<close> of
  \<^verbatim>\<open>Attention.forward\<close> (and Python's failed tuple unpacking, and \<^verbatim>\<open>nn.Dropout\<close>'s
  range check), \<open>ZeroDivisionError\<close> is Python's integer division or negative power of
  zero, \<open>RuntimeError\<close> is a shape mismatch reported by a tensor operation, and
  \<open>IndexError\<close> is a dimension or index out of range.

  Sizes and counts are natural numbers, so a negative size is not an input of the model;
  Python floats are real numbers. The names are those of the source; a few fields are
  renamed because the name is taken or would capture a variable: \<open>p\<close> of
  \<^verbatim>\<open>nn.Dropout\<close> is \<open>drop_p\<close>, \<open>drop\<close> of \<^verbatim>\<open>MLP\<close> is \<open>mlp_drop\<close>, \<open>norm\<close> of
  \<^verbatim>\<open>VisionTransformer\<close> is \<open>norm_f\<close>, and the weight and bias of the convolution and of
  the layer normalisation carry a prefix.
\<close>

datatype error = ValueError | ZeroDivisionError | RuntimeError | IndexError

text \<open>
  The only state a constructor or a forward pass touches is the random number generator:
  parameter initialisation and active dropout draw from it. It is an infinite tape of
  draws; taking \<open>n\<close> draws returns the first \<open>n\<close> entries and shifts the tape.
  A computation takes the generator and returns a value or an error, and the generator
  it leaves behind.
\<close>

type_synonym rng = "nat \<Rightarrow> real"

type_synonym 'a comp = "rng \<Rightarrow> (error + 'a) \<times> rng"

definition returnC :: "'a \<Rightarrow> 'a comp" where
  "returnC v = (\<lambda>g. (Inr v, g))"

definition raiseC :: "error \<Rightarrow> 'a comp" where
  "raiseC e = (\<lambda>g. (Inl e, g))"

definition liftC :: "error + 'a \<Rightarrow> 'a comp" where
  "liftC r = (\<lambda>g. (r, g))"

definition bindC :: "'a comp \<Rightarrow> ('a \<Rightarrow> 'b comp) \<Rightarrow> 'b comp" where
  "bindC m f = (\<lambda>g. case m g of (Inl e, g') \<Rightarrow> (Inl e, g') | (Inr v, g') \<Rightarrow> f v g')"

definition bindE :: "error + 'a \<Rightarrow> ('a \<Rightarrow> error + 'b) \<Rightarrow> error + 'b" where
  "bindE r f = (case r of Inl e \<Rightarrow> Inl e | Inr v \<Rightarrow> f v)"

definition draw :: "nat \<Rightarrow> rng \<Rightarrow> real list \<times> rng" where
  "draw n g = (map g [0..<n], \<lambda>i. g (i + n))"

section \<open>Tensors\<close>

text \<open>
  A tensor is its shape and its elements in row-major (C) order, the logical order in
  which PyTorch enumerates a tensor whatever its strides. \<open>ravel\<close> is the row-major
  offset of a multi-index and \<open>unravel\<close> its inverse; \<open>tabulate\<close> builds the tensor
  of a given shape from a function of the multi-index, and \<open>elem\<close> reads one element.
  A tensor is well formed when it has as many elements as its shape asks for.
\<close>

record tensor =
  shape :: "nat list"
  vals :: "real list"

definition numel :: "nat list \<Rightarrow> nat" where
  "numel shp = prod_list shp"

fun ravel :: "nat list \<Rightarrow> nat list \<Rightarrow> nat" where
  "ravel (d # ds) (i # js) = i * numel ds + ravel ds js"
| "ravel _ _ = 0"

fun unravel :: "nat list \<Rightarrow> nat \<Rightarrow> nat list" where
  "unravel [] n = []"
| "unravel (d # ds) n = (n div numel ds) # unravel ds (n mod numel ds)"

definition valid_index :: "nat list \<Rightarrow> nat list \<Rightarrow> bool" where
  "valid_index shp idx = list_all2 (<) idx shp"

definition tabulate :: "nat list \<Rightarrow> (nat list \<Rightarrow> real) \<Rightarrow> tensor" where
  "tabulate shp f = \<lparr>shape = shp, vals = map (\<lambda>n. f (unravel shp n)) [0..<numel shp]\<rparr>"

definition elem :: "tensor \<Rightarrow> nat list \<Rightarrow> real" where
  "elem t idx = vals t ! ravel (shape t) idx"

definition wf_tensor :: "tensor \<Rightarrow> bool" where
  "wf_tensor t = (length (vals t) = numel (shape t))"


section \<open>The tensor operations of the library\<close>

text \<open>
  The operations below are those of PyTorch that \<^verbatim>\<open>src/ViT.py\<close> calls, with the
  semantics of the PyTorch documentation: the result shape, the element at each
  multi-index of the result, and the failure when the shapes do not fit. Elements are
  real numbers and the arithmetic is exact: rounding, overflow and NaN of floating point
  are not modelled, so the statements below are about shapes, errors, the order of the
  operations and which elements an element of the result is computed from, never about
  floating-point accuracy.

  A dimension argument may be negative and then counts from the last axis.
\<close>

definition norm_dim :: "nat \<Rightarrow> int \<Rightarrow> error + nat" where
  "norm_dim r d =
     (if - int r \<le> d \<and> d < int r then Inr (nat (if d < 0 then d + int r else d))
      else Inl IndexError)"

text \<open>\<^verbatim>\<open>t.reshape(shp)\<close>: the same elements in the same row-major order.\<close>

definition reshape :: "nat list \<Rightarrow> tensor \<Rightarrow> error + tensor" where
  "reshape shp t =
     (if numel shp = numel (shape t) then Inr (t\<lparr>shape := shp\<rparr>) else Inl RuntimeError)"

text \<open>\<^verbatim>\<open>t.flatten(start_dim)\<close>: the axes from \<open>start_dim\<close> on become one axis.\<close>

definition flatten :: "int \<Rightarrow> tensor \<Rightarrow> error + tensor" where
  "flatten start_dim t =
     (case norm_dim (length (shape t)) start_dim of
        Inl e \<Rightarrow> Inl e
      | Inr s \<Rightarrow> Inr (t\<lparr>shape := take s (shape t) @ [numel (drop s (shape t))]\<rparr>))"

definition swap :: "nat \<Rightarrow> nat \<Rightarrow> 'a list \<Rightarrow> 'a list" where
  "swap i j xs = xs[i := xs ! j, j := xs ! i]"

text \<open>\<^verbatim>\<open>t.transpose(d0, d1)\<close>: two axes exchanged.\<close>

definition transpose_t :: "int \<Rightarrow> int \<Rightarrow> tensor \<Rightarrow> error + tensor" where
  "transpose_t d0 d1 t =
     (case norm_dim (length (shape t)) d0 of
        Inl e \<Rightarrow> Inl e
      | Inr i \<Rightarrow>
         (case norm_dim (length (shape t)) d1 of
            Inl e \<Rightarrow> Inl e
          | Inr j \<Rightarrow> Inr (tabulate (swap i j (shape t)) (\<lambda>idx. elem t (swap i j idx)))))"

definition index_of :: "nat \<Rightarrow> nat list \<Rightarrow> nat" where
  "index_of a xs = length (takeWhile (\<lambda>d. d \<noteq> a) xs)"

text \<open>
  \<^verbatim>\<open>t.permute(dims)\<close>: axis \<open>k\<close> of the result is axis \<open>dims ! k\<close> of \<open>t\<close>; \<open>dims\<close>
  must be a permutation of the axes.
\<close>

definition permute :: "nat list \<Rightarrow> tensor \<Rightarrow> error + tensor" where
  "permute dims t =
     (if sort dims = [0..<length (shape t)]
      then Inr (tabulate (map (\<lambda>d. shape t ! d) dims)
                  (\<lambda>idx. elem t (map (\<lambda>a. idx ! index_of a dims) [0..<length dims])))
      else Inl RuntimeError)"

text \<open>
  Indexing one axis with an integer: \<^verbatim>\<open>t[i]\<close> is \<open>select 0 i t\<close> and \<^verbatim>\<open>t[:, i]\<close> is
  \<open>select 1 i t\<close>; the axis disappears.
\<close>

definition select :: "nat \<Rightarrow> nat \<Rightarrow> tensor \<Rightarrow> error + tensor" where
  "select d i t =
     (if d < length (shape t) \<and> i < shape t ! d
      then Inr (tabulate (take d (shape t) @ drop (Suc d) (shape t))
                  (\<lambda>idx. elem t (take d idx @ [i] @ drop d idx)))
      else Inl IndexError)"

text \<open>
  \<^verbatim>\<open>a @ b\<close> on two tensors of the same rank, at least 2, with the same leading (batch)
  axes: a matrix product for each batch index. (PyTorch also broadcasts differing batch
  axes; the program only multiplies tensors cut from one tensor, whose batch axes agree.)
\<close>

definition matmul :: "tensor \<Rightarrow> tensor \<Rightarrow> error + tensor" where
  "matmul a b =
     (let sa = shape a; sb = shape b; r = length sa in
      if 2 \<le> r \<and> length sb = r \<and> take (r - 2) sa = take (r - 2) sb \<and> sa ! (r - 1) = sb ! (r - 2)
      then Inr (tabulate (take (r - 2) sa @ [sa ! (r - 2), sb ! (r - 1)])
                  (\<lambda>idx. sum_list (map (\<lambda>k. elem a (take (r - 2) idx @ [idx ! (r - 2), k])
                                            * elem b (take (r - 2) idx @ [k, idx ! (r - 1)]))
                                    [0..<sa ! (r - 1)])))
      else Inl RuntimeError)"

text \<open>\<^verbatim>\<open>t * c\<close> for a Python number \<open>c\<close>.\<close>

definition mul_scalar :: "tensor \<Rightarrow> real \<Rightarrow> tensor" where
  "mul_scalar t c = t\<lparr>vals := map (\<lambda>v. v * c) (vals t)\<rparr>"

text \<open>
  \<^verbatim>\<open>t.softmax(dim)\<close>: along axis \<open>dim\<close>, each element's exponential divided by the sum of
  the exponentials of the elements that differ from it only in that axis. This is the
  value in exact real arithmetic; how the float32 kernel evaluates it (it subtracts the
  maximum of the row first), and the overflow to \<open>inf\<close> and \<open>NaN\<close> of float32 scores, are
  outside this model. Only the shape of the result and its independence of the random
  generator are used below.
\<close>

definition softmax :: "int \<Rightarrow> tensor \<Rightarrow> error + tensor" where
  "softmax d t =
     (case norm_dim (length (shape t)) d of
        Inl e \<Rightarrow> Inl e
      | Inr k \<Rightarrow>
          Inr (tabulate (shape t)
                 (\<lambda>idx. exp (elem t idx)
                         / sum_list (map (\<lambda>j. exp (elem t (idx[k := j]))) [0..<shape t ! k]))))"

text \<open>
  \<^verbatim>\<open>a + b\<close> with broadcasting: the shapes are aligned at the last axis, the shorter one
  is padded with 1 in front, and an axis of size 1 is repeated to the size of the other.
\<close>

fun broadcast_shapes :: "nat list \<Rightarrow> nat list \<Rightarrow> nat list option" where
  "broadcast_shapes [] [] = Some []"
| "broadcast_shapes (a # as) (b # bs) =
     (if a = b \<or> b = 1 then map_option ((#) a) (broadcast_shapes as bs)
      else if a = 1 then map_option ((#) b) (broadcast_shapes as bs)
      else None)"
| "broadcast_shapes _ _ = None"

definition pad_shape :: "nat \<Rightarrow> nat list \<Rightarrow> nat list" where
  "pad_shape r shp = replicate (r - length shp) 1 @ shp"

definition broadcast_index :: "nat list \<Rightarrow> nat list \<Rightarrow> nat list" where
  "broadcast_index shp idx =
     map2 (\<lambda>d i. if d = 1 then 0 else i) shp (drop (length idx - length shp) idx)"

definition add_t :: "tensor \<Rightarrow> tensor \<Rightarrow> error + tensor" where
  "add_t a b =
     (let r = max (length (shape a)) (length (shape b)) in
      case broadcast_shapes (pad_shape r (shape a)) (pad_shape r (shape b)) of
        None \<Rightarrow> Inl RuntimeError
      | Some shp \<Rightarrow>
          Inr (tabulate shp (\<lambda>idx. elem a (broadcast_index (shape a) idx)
                                   + elem b (broadcast_index (shape b) idx))))"

text \<open>
  \<^verbatim>\<open>t.expand(sizes)\<close> with as many sizes as \<open>t\<close> has axes (the form the program uses):
  \<open>-1\<close> keeps an axis, and an axis of size 1 is repeated to the size asked for.
\<close>

definition expand_dim :: "int \<Rightarrow> nat \<Rightarrow> nat option" where
  "expand_dim z d =
     (if z = - 1 \<or> z = int d then Some d
      else if d = 1 \<and> 0 \<le> z then Some (nat z)
      else None)"

definition expand :: "int list \<Rightarrow> tensor \<Rightarrow> error + tensor" where
  "expand sizes t =
     (if length sizes \<noteq> length (shape t) then Inl RuntimeError
      else case those (map2 expand_dim sizes (shape t)) of
        None \<Rightarrow> Inl RuntimeError
      | Some shp \<Rightarrow> Inr (tabulate shp (\<lambda>idx. elem t (broadcast_index (shape t) idx))))"

text \<open>
  \<^verbatim>\<open>torch.cat((a, b), dim=d)\<close>: the two tensors must agree in every axis but \<open>d\<close>.
\<close>

definition cat :: "tensor \<Rightarrow> tensor \<Rightarrow> nat \<Rightarrow> error + tensor" where
  "cat a b d =
     (if length (shape a) \<le> d then Inl IndexError
      else if length (shape a) = length (shape b) \<and> (shape a)[d := 0] = (shape b)[d := 0]
      then Inr (tabulate ((shape a)[d := shape a ! d + shape b ! d])
                  (\<lambda>idx. if idx ! d < shape a ! d then elem a idx
                          else elem b (idx[d := idx ! d - shape a ! d])))
      else Inl RuntimeError)"

text \<open>A tensor of the given shape filled with one value, and one filled with draws.\<close>

definition full :: "nat list \<Rightarrow> real \<Rightarrow> tensor" where
  "full shp v = \<lparr>shape = shp, vals = replicate (numel shp) v\<rparr>"

definition rand :: "nat list \<Rightarrow> tensor comp" where
  "rand shp = (\<lambda>g. case draw (numel shp) g of (vs, g') \<Rightarrow> (Inr \<lparr>shape = shp, vals = vs\<rparr>, g'))"


section \<open>The library modules\<close>

text \<open>
  \<^verbatim>\<open>nn.Linear(in_features, out_features, bias)\<close>: the weight has shape
  \<open>[out_features, in_features]\<close>, the optional bias \<open>[out_features]\<close>, both
  initialised from the generator; creating a tensor with a negative dimension fails.
  Applied to \<open>x\<close> it maps the last axis: \<open>y[.., o] = (\<Sum>i. x[.., i] * W[o, i]) + b[o]\<close>.
\<close>

record Linear =
  weight :: tensor
  bias :: "tensor option"

definition Linear_init :: "int \<Rightarrow> int \<Rightarrow> bool \<Rightarrow> Linear comp" where
  "Linear_init in_features out_features with_bias =
     (if in_features < 0 \<or> out_features < 0 then raiseC RuntimeError
      else bindC (rand [nat out_features, nat in_features]) (\<lambda>w.
           if with_bias
           then bindC (rand [nat out_features]) (\<lambda>b. returnC \<lparr>weight = w, bias = Some b\<rparr>)
           else returnC \<lparr>weight = w, bias = None\<rparr>))"

definition Linear_forward :: "Linear \<Rightarrow> tensor \<Rightarrow> error + tensor" where
  "Linear_forward l x =
     (case shape (weight l) of
        [n_out, n_in] \<Rightarrow>
          if shape x \<noteq> [] \<and> last (shape x) = n_in
             \<and> (case bias l of None \<Rightarrow> True | Some b \<Rightarrow> shape b = [n_out])
          then Inr (tabulate (butlast (shape x) @ [n_out])
                 (\<lambda>idx. sum_list (map (\<lambda>i. elem x (butlast idx @ [i]) * elem (weight l) [last idx, i])
                                   [0..<n_in])
                         + (case bias l of None \<Rightarrow> 0 | Some b \<Rightarrow> elem b [last idx])))
          else Inl RuntimeError
      | _ \<Rightarrow> Inl RuntimeError)"

text \<open>
  \<^verbatim>\<open>nn.Conv2d(in_channels, out_channels, kernel_size=k, stride=s)\<close>, without padding or
  dilation: the weight has shape \<open>[out_channels, in_channels, k, k]\<close>. On a batched
  input \<open>[B, C, H, W]\<close> the output is \<open>[B, out_channels, (H - k) div s + 1, (W - k) div s + 1]\<close>
  with \<open>y[b, o, i, j] = bias[o] + (\<Sum>c u v. W[o, c, u, v] * x[b, c, i * s + u, j * s + v])\<close>;
  an image without the batch axis, \<open>[C, H, W]\<close>, gives \<open>[out_channels, .., ..]\<close> likewise.
  It fails when the channels differ from those of the weight, when the kernel is larger
  than the image, and when the weight has no output channel; with no input channel the
  result has no channel.
\<close>

record Conv2d =
  conv_weight :: tensor
  conv_bias :: tensor
  stride :: nat

definition Conv2d_init :: "nat \<Rightarrow> nat \<Rightarrow> nat \<Rightarrow> nat \<Rightarrow> Conv2d comp" where
  "Conv2d_init in_channels out_channels kernel_size strd =
     bindC (rand [out_channels, in_channels, kernel_size, kernel_size]) (\<lambda>w.
     bindC (rand [out_channels]) (\<lambda>b.
     returnC \<lparr>conv_weight = w, conv_bias = b, stride = strd\<rparr>))"

definition Conv2d_forward :: "Conv2d \<Rightarrow> tensor \<Rightarrow> error + tensor" where
  "Conv2d_forward c x =
     (case shape (conv_weight c) of
        [n_out, n_in, kh, kw] \<Rightarrow>
          (case shape x of
             [B, C, H, W] \<Rightarrow>
               if C = n_in \<and> 0 < n_out \<and> shape (conv_bias c) = [n_out]
                  \<and> 0 < kh \<and> 0 < kw \<and> kh \<le> H \<and> kw \<le> W \<and> 0 < stride c
               then Inr (tabulate [B, if n_in = 0 then 0 else n_out,
                                   (H - kh) div stride c + 1, (W - kw) div stride c + 1]
                      (\<lambda>idx. elem (conv_bias c) [idx ! 1]
                         + sum_list (map (\<lambda>ch.
                             sum_list (map (\<lambda>u.
                               sum_list (map (\<lambda>v.
                                 elem (conv_weight c) [idx ! 1, ch, u, v]
                                 * elem x [idx ! 0, ch, idx ! 2 * stride c + u, idx ! 3 * stride c + v])
                               [0..<kw]))
                             [0..<kh]))
                           [0..<n_in])))
               else Inl RuntimeError
           | [C, H, W] \<Rightarrow>
               if C = n_in \<and> 0 < n_out \<and> shape (conv_bias c) = [n_out]
                  \<and> 0 < kh \<and> 0 < kw \<and> kh \<le> H \<and> kw \<le> W \<and> 0 < stride c
               then Inr (tabulate [if n_in = 0 then 0 else n_out,
                                   (H - kh) div stride c + 1, (W - kw) div stride c + 1]
                      (\<lambda>idx. elem (conv_bias c) [idx ! 0]
                         + sum_list (map (\<lambda>ch.
                             sum_list (map (\<lambda>u.
                               sum_list (map (\<lambda>v.
                                 elem (conv_weight c) [idx ! 0, ch, u, v]
                                 * elem x [ch, idx ! 1 * stride c + u, idx ! 2 * stride c + v])
                               [0..<kw]))
                             [0..<kh]))
                           [0..<n_in])))
               else Inl RuntimeError
           | _ \<Rightarrow> Inl RuntimeError)
      | _ \<Rightarrow> Inl RuntimeError)"

text \<open>
  \<^verbatim>\<open>nn.LayerNorm(dim)\<close>: scale initialised to 1 and shift to 0, \<open>eps = 1e-5\<close>. Each row
  along the last axis is normalised with its mean and its (biased) variance.
\<close>

record LayerNorm =
  normalized_shape :: nat
  eps :: real
  ln_weight :: tensor
  ln_bias :: tensor

definition LayerNorm_init :: "nat \<Rightarrow> LayerNorm" where
  "LayerNorm_init n =
     \<lparr>normalized_shape = n, eps = 1 / 100000, ln_weight = full [n] 1, ln_bias = full [n] 0\<rparr>"

definition LayerNorm_forward :: "LayerNorm \<Rightarrow> tensor \<Rightarrow> error + tensor" where
  "LayerNorm_forward l x =
     (if shape x \<noteq> [] \<and> last (shape x) = normalized_shape l
         \<and> shape (ln_weight l) = [normalized_shape l] \<and> shape (ln_bias l) = [normalized_shape l]
      then Inr (tabulate (shape x)
             (\<lambda>idx. let row = map (\<lambda>j. elem x (butlast idx @ [j])) [0..<normalized_shape l];
                        mu = sum_list row / real (normalized_shape l);
                        var = sum_list (map (\<lambda>v. (v - mu)\<^sup>2) row) / real (normalized_shape l)
                    in (elem x idx - mu) / sqrt (var + eps l) * elem (ln_weight l) [last idx]
                       + elem (ln_bias l) [last idx]))
      else Inl RuntimeError)"

text \<open>
  \<^verbatim>\<open>nn.Dropout(p)\<close>: the constructor rejects a probability outside \<open>[0, 1]\<close>; a new
  module is in training mode. The forward pass returns its input unchanged, drawing
  nothing, when the module is not training, when \<open>p = 0\<close> or when the input is empty;
  it returns zeros when \<open>p = 1\<close>; otherwise it draws one number for each element, keeps the
  element with probability \<open>1 - p\<close> and divides the kept ones by \<open>1 - p\<close>.
\<close>

record Dropout =
  drop_p :: real
  training :: bool

definition Dropout_init :: "real \<Rightarrow> Dropout comp" where
  "Dropout_init q =
     (if q < 0 \<or> 1 < q then raiseC ValueError
      else returnC \<lparr>drop_p = q, training = True\<rparr>)"

definition Dropout_forward :: "Dropout \<Rightarrow> tensor \<Rightarrow> tensor comp" where
  "Dropout_forward d x =
     (if \<not> training d \<or> drop_p d = 0 \<or> numel (shape x) = 0 then returnC x
      else if drop_p d = 1 then returnC (x\<lparr>vals := map (\<lambda>v. 0) (vals x)\<rparr>)
      else (\<lambda>g. case draw (numel (shape x)) g of
                   (us, g') \<Rightarrow>
                     (Inr (x\<lparr>vals := map2 (\<lambda>v u. if u < 1 - drop_p d then v / (1 - drop_p d) else 0)
                                         (vals x) us\<rparr>), g')))"

text \<open>
  \<^verbatim>\<open>nn.GELU()\<close>: \<open>x * \<Phi>(x)\<close> with \<open>\<Phi>\<close> the standard normal distribution function,
  written with the error function, here its Maclaurin series.
\<close>

definition erf :: "real \<Rightarrow> real" where
  "erf x = 2 / sqrt pi * (\<Sum>n. (- 1) ^ n * x ^ (2 * n + 1) / (fact n * real (2 * n + 1)))"

definition GELU :: "real \<Rightarrow> real" where
  "GELU x = x * (1 + erf (x / sqrt 2)) / 2"

definition apply_act :: "(real \<Rightarrow> real) \<Rightarrow> tensor \<Rightarrow> tensor" where
  "apply_act f t = t\<lparr>vals := map f (vals t)\<rparr>"


section \<open>PatchEmbedding\<close>

text \<open>
  \<^verbatim>\<open>PatchEmbedding.__init__\<close> (lines 6-14): \<^verbatim>\<open>img_size // patch_size\<close> raises
  \<open>ZeroDivisionError\<close> for a zero patch size, before the convolution is built; nothing
  else is checked. \<^verbatim>\<open>forward\<close> (lines 16-20) is the convolution, \<^verbatim>\<open>flatten(2)\<close> and
  \<^verbatim>\<open>transpose(1, 2)\<close>.
\<close>

record PatchEmbedding =
  img_size :: nat
  patch_size :: nat
  n_patches :: nat
  projection :: Conv2d

definition PatchEmbedding_init :: "nat \<Rightarrow> nat \<Rightarrow> nat \<Rightarrow> nat \<Rightarrow> PatchEmbedding comp" where
  "PatchEmbedding_init img patch in_channels embed_dim =
     (if patch = 0 then raiseC ZeroDivisionError
      else bindC (Conv2d_init in_channels embed_dim patch patch) (\<lambda>c.
           returnC \<lparr>img_size = img, patch_size = patch, n_patches = (img div patch)\<^sup>2,
                    projection = c\<rparr>))"

definition PatchEmbedding_forward :: "PatchEmbedding \<Rightarrow> tensor \<Rightarrow> error + tensor" where
  "PatchEmbedding_forward pe x =
     bindE (Conv2d_forward (projection pe) x) (\<lambda>x1.
     bindE (flatten 2 x1) (\<lambda>x2.
     transpose_t 1 2 x2))"

section \<open>Attention\<close>

text \<open>
  \<^verbatim>\<open>Attention.__init__\<close> (lines 24-34): \<^verbatim>\<open>dim // n_heads\<close> raises
  \<open>ZeroDivisionError\<close> when \<open>n_heads = 0\<close>, and so does \<^verbatim>\<open>self.head_dim ** -0.5\<close> when
  the quotient is 0; divisibility of \<open>dim\<close> by \<open>n_heads\<close> is not checked.
\<close>

record Attention =
  n_heads :: nat
  dim :: nat
  head_dim :: nat
  scale :: real
  qkv :: Linear
  attn_drop :: Dropout
  proj :: Linear
  proj_drop :: Dropout

definition Attention_init :: "nat \<Rightarrow> nat \<Rightarrow> bool \<Rightarrow> real \<Rightarrow> real \<Rightarrow> Attention comp" where
  "Attention_init d heads qkv_bias attn_p proj_p =
     (if heads = 0 then raiseC ZeroDivisionError
      else if d div heads = 0 then raiseC ZeroDivisionError
      else bindC (Linear_init (int d) (int d * 3) qkv_bias) (\<lambda>l1.
           bindC (Dropout_init attn_p) (\<lambda>d1.
           bindC (Linear_init (int d) (int d) True) (\<lambda>l2.
           bindC (Dropout_init proj_p) (\<lambda>d2.
           returnC \<lparr>n_heads = heads, dim = d, head_dim = d div heads,
                    scale = real (d div heads) powr (- (1 / 2)),
                    qkv = l1, attn_drop = d1, proj = l2, proj_drop = d2\<rparr>)))))"

text \<open>
  \<^verbatim>\<open>Attention.forward\<close>, lines 42-45: the packed projection, split into heads, and the
  three tensors \<open>q\<close>, \<open>k\<close>, \<open>v\<close> of shape \<open>[n_samples, n_heads, n_tokens, head_dim]\<close>.
\<close>

definition Attention_qkv :: "Attention \<Rightarrow> nat \<Rightarrow> nat \<Rightarrow> tensor \<Rightarrow> error + (tensor \<times> tensor \<times> tensor)" where
  "Attention_qkv a n_samples n_tokens x =
     bindE (Linear_forward (qkv a) x) (\<lambda>qkv1.
     bindE (reshape [n_samples, n_tokens, 3, n_heads a, head_dim a] qkv1) (\<lambda>qkv2.
     bindE (permute [2, 0, 3, 1, 4] qkv2) (\<lambda>qkv3.
     bindE (select 0 0 qkv3) (\<lambda>q.
     bindE (select 0 1 qkv3) (\<lambda>k.
     bindE (select 0 2 qkv3) (\<lambda>v.
     Inr (q, k, v)))))))"

text \<open>Lines 46-47: the scaled scores \<open>dp\<close>. Line 48: the attention weights.\<close>

definition Attention_dp :: "Attention \<Rightarrow> tensor \<Rightarrow> tensor \<Rightarrow> error + tensor" where
  "Attention_dp a q k =
     bindE (transpose_t (- 2) (- 1) k) (\<lambda>k_t.
     bindE (matmul q k_t) (\<lambda>qk.
     Inr (mul_scalar qk (scale a))))"

definition Attention_attn :: "Attention \<Rightarrow> tensor \<Rightarrow> tensor \<Rightarrow> error + tensor" where
  "Attention_attn a q k = bindE (Attention_dp a q k) (softmax (- 1))"

text \<open>Lines 50-54: the weighted average of the values, the heads put back together, the
  output projection and its dropout.\<close>

definition Attention_out :: "Attention \<Rightarrow> nat \<Rightarrow> nat \<Rightarrow> nat \<Rightarrow> tensor \<Rightarrow> tensor \<Rightarrow> tensor comp" where
  "Attention_out a n_samples n_tokens d attn2 v =
     bindC (liftC (matmul attn2 v)) (\<lambda>weighted_avg.
     bindC (liftC (transpose_t 1 2 weighted_avg)) (\<lambda>wa1.
     bindC (liftC (reshape [n_samples, n_tokens, d] wa1)) (\<lambda>wa2.
     bindC (liftC (Linear_forward (proj a) wa2)) (\<lambda>x1.
     Dropout_forward (proj_drop a) x1))))"

text \<open>
  The whole of \<^verbatim>\<open>Attention.forward\<close> (lines 36-54). Unpacking \<^verbatim>\<open>x.shape\<close> into three
  names raises \<open>ValueError\<close> unless \<open>x\<close> has rank 3; then comes the explicit check of
  line 39.
\<close>

definition Attention_forward :: "Attention \<Rightarrow> tensor \<Rightarrow> tensor comp" where
  "Attention_forward a x =
     (case shape x of
        [n_samples, n_tokens, d] \<Rightarrow>
          if d \<noteq> dim a then raiseC ValueError
          else bindC (liftC (Attention_qkv a n_samples n_tokens x)) (\<lambda>(q, k, v).
               bindC (liftC (Attention_attn a q k)) (\<lambda>attn1.
               bindC (Dropout_forward (attn_drop a) attn1) (\<lambda>attn2.
               Attention_out a n_samples n_tokens d attn2 v)))
      | _ \<Rightarrow> raiseC ValueError)"

section \<open>MLP\<close>

text \<open>
  \<^verbatim>\<open>MLP.__init__\<close> (lines 57-64): \<^verbatim>\<open>out_features or in_features\<close> takes
  \<open>in_features\<close> when the argument is \<^verbatim>\<open>None\<close> or 0, and likewise for the hidden width;
  one \<^verbatim>\<open>Dropout(p)\<close> is applied after each linear layer in \<^verbatim>\<open>forward\<close> (lines 66-72).
\<close>

record MLP =
  fc1 :: Linear
  act :: "real \<Rightarrow> real"
  fc2 :: Linear
  mlp_drop :: Dropout

definition or_default :: "int option \<Rightarrow> int \<Rightarrow> int" where
  "or_default v d = (case v of None \<Rightarrow> d | Some n \<Rightarrow> if n = 0 then d else n)"

definition MLP_init :: "int \<Rightarrow> int option \<Rightarrow> int option \<Rightarrow> real \<Rightarrow> MLP comp" where
  "MLP_init in_features hidden_features out_features q =
     (let out_f = or_default out_features in_features;
          hidden_f = or_default hidden_features in_features
      in bindC (Linear_init in_features hidden_f True) (\<lambda>l1.
         bindC (Linear_init hidden_f out_f True) (\<lambda>l2.
         bindC (Dropout_init q) (\<lambda>d1.
         returnC \<lparr>fc1 = l1, act = GELU, fc2 = l2, mlp_drop = d1\<rparr>))))"

definition MLP_forward :: "MLP \<Rightarrow> tensor \<Rightarrow> tensor comp" where
  "MLP_forward m x =
     bindC (liftC (Linear_forward (fc1 m) x)) (\<lambda>x1.
     bindC (Dropout_forward (mlp_drop m) (apply_act (act m) x1)) (\<lambda>x2.
     bindC (liftC (Linear_forward (fc2 m) x2)) (\<lambda>x3.
     Dropout_forward (mlp_drop m) x3)))"

section \<open>Block\<close>

text \<open>
  \<^verbatim>\<open>Block.__init__\<close> (lines 75-81). \<^verbatim>\<open>int(dim * mlp_ratio)\<close> truncates towards zero.
  Here \<open>mlp_ratio\<close> is a real number and the product is exact; the float64 product of the
  code is rounded, which can change the truncated hidden width by one. No statement below
  depends on the hidden width.
  Line 81 builds the MLP from \<open>in_features\<close>, \<open>hidden_features\<close> and \<open>out_features\<close>
  only, so its dropout probability is the default \<open>p = 0\<close> of \<^verbatim>\<open>MLP.__init__\<close>; the
  argument \<open>p\<close> of the block is not used.
\<close>

record Block =
  norm1 :: LayerNorm
  attn :: Attention
  norm2 :: LayerNorm
  mlp :: MLP

definition py_int :: "real \<Rightarrow> int" where
  "py_int r = (if 0 \<le> r then \<lfloor>r\<rfloor> else \<lceil>r\<rceil>)"

definition Block_init :: "nat \<Rightarrow> nat \<Rightarrow> real \<Rightarrow> bool \<Rightarrow> real \<Rightarrow> real \<Rightarrow> real \<Rightarrow> Block comp" where
  "Block_init d heads mlp_ratio qkv_bias q attn_p proj_p =
     bindC (Attention_init d heads qkv_bias attn_p proj_p) (\<lambda>a.
     (let mlp_hidden_dim = py_int (real d * mlp_ratio)
      in bindC (MLP_init (int d) (Some mlp_hidden_dim) (Some (int d)) 0) (\<lambda>m.
         returnC \<lparr>norm1 = LayerNorm_init d, attn = a, norm2 = LayerNorm_init d, mlp = m\<rparr>)))"

definition Block_forward :: "Block \<Rightarrow> tensor \<Rightarrow> tensor comp" where
  "Block_forward b x =
     bindC (liftC (LayerNorm_forward (norm1 b) x)) (\<lambda>n1.
     bindC (Attention_forward (attn b) n1) (\<lambda>a1.
     bindC (liftC (add_t x a1)) (\<lambda>x1.
     bindC (liftC (LayerNorm_forward (norm2 b) x1)) (\<lambda>n2.
     bindC (MLP_forward (mlp b) n2) (\<lambda>m1.
     liftC (add_t x1 m1))))))"

section \<open>VisionTransformer\<close>

text \<open>
  The arguments of \<^verbatim>\<open>VisionTransformer.__init__\<close> (line 89) as one record, and the
  constructor (lines 90-97) in the order of the source: patch embedding, classification
  token, positional embedding, positional dropout, the \<open>depth\<close> blocks, the final
  normalisation, the head.
\<close>

record vit_args =
  arg_img_size :: nat
  arg_patch_size :: nat
  arg_in_channels :: nat
  arg_n_classes :: nat
  arg_embed_dim :: nat
  arg_depth :: nat
  arg_n_heads :: nat
  arg_mlp_ratio :: real
  arg_qkv_bias :: bool
  arg_p :: real
  arg_attn_p :: real
  arg_proj_p :: real

record VisionTransformer =
  patch_embed :: PatchEmbedding
  cls_token :: tensor
  pos_embed :: tensor
  pos_drop :: Dropout
  blocks :: "Block list"
  norm_f :: LayerNorm
  head :: Linear

fun make_blocks :: "nat \<Rightarrow> Block comp \<Rightarrow> Block list comp" where
  "make_blocks 0 mk = returnC []"
| "make_blocks (Suc n) mk = bindC mk (\<lambda>b. bindC (make_blocks n mk) (\<lambda>bs. returnC (b # bs)))"

definition VisionTransformer_init :: "vit_args \<Rightarrow> VisionTransformer comp" where
  "VisionTransformer_init c =
     bindC (PatchEmbedding_init (arg_img_size c) (arg_patch_size c) (arg_in_channels c)
              (arg_embed_dim c)) (\<lambda>pe.
     bindC (rand [1, 1, arg_embed_dim c]) (\<lambda>cls.
     bindC (rand [1, (arg_img_size c div arg_patch_size c)\<^sup>2 + 1, arg_embed_dim c]) (\<lambda>pos.
     bindC (Dropout_init (arg_p c)) (\<lambda>pd.
     bindC (make_blocks (arg_depth c)
              (Block_init (arg_embed_dim c) (arg_n_heads c) (arg_mlp_ratio c) (arg_qkv_bias c)
                 (arg_p c) (arg_attn_p c) (arg_proj_p c))) (\<lambda>bs.
     bindC (Linear_init (int (arg_embed_dim c)) (int (arg_n_classes c)) True) (\<lambda>h.
     returnC \<lparr>patch_embed = pe, cls_token = cls, pos_embed = pos, pos_drop = pd, blocks = bs,
              norm_f = LayerNorm_init (arg_embed_dim c), head = h\<rparr>))))))"

text \<open>
  \<^verbatim>\<open>VisionTransformer.forward\<close> (lines 99-112). \<^verbatim>\<open>x.shape[0]\<close> raises \<open>IndexError\<close> on
  a tensor without axes. The loop over \<^verbatim>\<open>self.blocks\<close> is \<open>run_blocks\<close>.
\<close>

fun run_blocks :: "Block list \<Rightarrow> tensor \<Rightarrow> tensor comp" where
  "run_blocks [] x = returnC x"
| "run_blocks (b # bs) x = bindC (Block_forward b x) (run_blocks bs)"

definition VisionTransformer_forward :: "VisionTransformer \<Rightarrow> tensor \<Rightarrow> tensor comp" where
  "VisionTransformer_forward m x =
     (case shape x of
        [] \<Rightarrow> raiseC IndexError
      | n_samples # _ \<Rightarrow>
          bindC (liftC (PatchEmbedding_forward (patch_embed m) x)) (\<lambda>x1.
          bindC (liftC (expand [int n_samples, - 1, - 1] (cls_token m))) (\<lambda>cls.
          bindC (liftC (cat cls x1 1)) (\<lambda>x2.
          bindC (liftC (add_t x2 (pos_embed m))) (\<lambda>x3.
          bindC (Dropout_forward (pos_drop m) x3) (\<lambda>x4.
          bindC (run_blocks (blocks m) x4) (\<lambda>x5.
          bindC (liftC (LayerNorm_forward (norm_f m) x5)) (\<lambda>x6.
          bindC (liftC (select 1 0 x6)) (\<lambda>x7.
          liftC (Linear_forward (head m) x7))))))))))"

text \<open>
  \<^verbatim>\<open>nn.Module.train(mode)\<close>, inherited by every module: it sets the \<open>training\<close> flag of
  the module and of all its submodules; \<^verbatim>\<open>eval()\<close> is \<^verbatim>\<open>train(False)\<close>. Only the
  dropouts read the flag.
\<close>

definition Attention_train :: "bool \<Rightarrow> Attention \<Rightarrow> Attention" where
  "Attention_train mode a =
     a\<lparr>attn_drop := (attn_drop a)\<lparr>training := mode\<rparr>, proj_drop := (proj_drop a)\<lparr>training := mode\<rparr>\<rparr>"

definition MLP_train :: "bool \<Rightarrow> MLP \<Rightarrow> MLP" where
  "MLP_train mode m = m\<lparr>mlp_drop := (mlp_drop m)\<lparr>training := mode\<rparr>\<rparr>"

definition Block_train :: "bool \<Rightarrow> Block \<Rightarrow> Block" where
  "Block_train mode b = b\<lparr>attn := Attention_train mode (attn b), mlp := MLP_train mode (mlp b)\<rparr>"

definition VisionTransformer_train :: "bool \<Rightarrow> VisionTransformer \<Rightarrow> VisionTransformer" where
  "VisionTransformer_train mode m =
     m\<lparr>pos_drop := (pos_drop m)\<lparr>training := mode\<rparr>, blocks := map (Block_train mode) (blocks m)\<rparr>"


text \<open>
  A call of the model as a method: the object and the generator are the state before
  and after.
\<close>

record vit_state =
  model :: VisionTransformer
  generator :: rng

definition call_forward :: "tensor \<Rightarrow> vit_state \<Rightarrow> (error + tensor) \<times> vit_state" where
  "call_forward x s =
     (case VisionTransformer_forward (model s) x (generator s) of
        (r, g') \<Rightarrow> (r, s\<lparr>generator := g'\<rparr>))"

section \<open>Predicates used in the statements\<close>

text \<open>
  \<open>okE r P\<close>: the result \<open>r\<close> is a value, not an error, and the value satisfies \<open>P\<close>.
  \<open>okC c P\<close>: the computation \<open>c\<close> returns such a value from every generator state.
\<close>

definition okE :: "error + 'a \<Rightarrow> ('a \<Rightarrow> bool) \<Rightarrow> bool" where
  "okE r P = (case r of Inl e \<Rightarrow> False | Inr y \<Rightarrow> P y)"

definition okC :: "'a comp \<Rightarrow> ('a \<Rightarrow> bool) \<Rightarrow> bool" where
  "okC c P = (\<forall>g. okE (fst (c g)) P)"

text \<open>\<open>never_raises c e\<close>: from no generator state does \<open>c\<close> end in the error \<open>e\<close>.\<close>

definition never_raises :: "'a comp \<Rightarrow> error \<Rightarrow> bool" where
  "never_raises c e = (\<forall>g. fst (c g) \<noteq> Inl e)"

text \<open>
  \<open>stateless c\<close>: the computation \<open>c\<close> returns one and the same result from every
  generator state, and leaves the generator as it found it.
\<close>

definition stateless :: "'a comp \<Rightarrow> bool" where
  "stateless c = (\<exists>r. \<forall>g. c g = (r, g))"

text \<open>The parameter shapes that the constructors give the modules.\<close>

definition Linear_ok :: "nat \<Rightarrow> nat \<Rightarrow> Linear \<Rightarrow> bool" where
  "Linear_ok n_in n_out l =
     (shape (weight l) = [n_out, n_in]
      \<and> (case bias l of None \<Rightarrow> True | Some b \<Rightarrow> shape b = [n_out]))"

definition LayerNorm_ok :: "nat \<Rightarrow> LayerNorm \<Rightarrow> bool" where
  "LayerNorm_ok n l =
     (normalized_shape l = n \<and> shape (ln_weight l) = [n] \<and> shape (ln_bias l) = [n])"

definition Conv2d_ok :: "nat \<Rightarrow> nat \<Rightarrow> nat \<Rightarrow> Conv2d \<Rightarrow> bool" where
  "Conv2d_ok n_in n_out k c =
     (shape (conv_weight c) = [n_out, n_in, k, k] \<and> shape (conv_bias c) = [n_out] \<and> stride c = k)"

definition Attention_ok :: "nat \<Rightarrow> nat \<Rightarrow> Attention \<Rightarrow> bool" where
  "Attention_ok d h a =
     (dim a = d \<and> n_heads a = h \<and> head_dim a = d div h
      \<and> Linear_ok d (d * 3) (qkv a) \<and> Linear_ok d d (proj a))"

definition MLP_ok :: "nat \<Rightarrow> nat \<Rightarrow> nat \<Rightarrow> MLP \<Rightarrow> bool" where
  "MLP_ok n_in n_hidden n_out m = (Linear_ok n_in n_hidden (fc1 m) \<and> Linear_ok n_hidden n_out (fc2 m))"

definition Block_ok :: "nat \<Rightarrow> nat \<Rightarrow> Block \<Rightarrow> bool" where
  "Block_ok d h b =
     (LayerNorm_ok d (norm1 b) \<and> Attention_ok d h (attn b) \<and> LayerNorm_ok d (norm2 b)
      \<and> (\<exists>n_hidden. MLP_ok d n_hidden d (mlp b)))"


definition VisionTransformer_ok :: "vit_args \<Rightarrow> VisionTransformer \<Rightarrow> bool" where
  "VisionTransformer_ok c m =
     (Conv2d_ok (arg_in_channels c) (arg_embed_dim c) (arg_patch_size c) (projection (patch_embed m))
      \<and> shape (cls_token m) = [1, 1, arg_embed_dim c]
      \<and> shape (pos_embed m) = [1, (arg_img_size c div arg_patch_size c)\<^sup>2 + 1, arg_embed_dim c]
      \<and> list_all (Block_ok (arg_embed_dim c) (arg_n_heads c)) (blocks m)
      \<and> LayerNorm_ok (arg_embed_dim c) (norm_f m)
      \<and> Linear_ok (arg_embed_dim c) (arg_n_classes c) (head m))"

text \<open>
  Constructor arguments in range: every size is positive, \<open>mlp_ratio\<close> is not negative
  and every dropout probability lies in \<open>[0, 1]\<close>. A valid configuration is one in range
  in which the patch size divides the image size and the number of heads divides the
  embedding dimension.
\<close>

definition args_in_range :: "vit_args \<Rightarrow> bool" where
  "args_in_range c =
     (0 < arg_img_size c \<and> 0 < arg_patch_size c \<and> 0 < arg_in_channels c \<and> 0 < arg_n_classes c
      \<and> 0 < arg_embed_dim c \<and> 0 < arg_n_heads c \<and> 0 \<le> arg_mlp_ratio c
      \<and> 0 \<le> arg_p c \<and> arg_p c \<le> 1 \<and> 0 \<le> arg_attn_p c \<and> arg_attn_p c \<le> 1
      \<and> 0 \<le> arg_proj_p c \<and> arg_proj_p c \<le> 1)"

definition valid_args :: "vit_args \<Rightarrow> bool" where
  "valid_args c =
     (args_in_range c \<and> arg_patch_size c dvd arg_img_size c \<and> arg_n_heads c dvd arg_embed_dim c)"


section \<open>Notions of the specification\<close>

text \<open>
  The forward pass as the specification words it: eight stages, each fed the result of
  the one before. \<open>then_stage\<close> runs a stage after what came before it; the stages are
  the patch embedding, the prepending of the classification token broadcast to the batch,
  the addition of the positional embedding, the dropout, the encoder blocks one after the
  other, the final normalisation, the selection of position 0 and the linear head.
\<close>

definition then_stage :: "('a \<Rightarrow> 'b comp) \<Rightarrow> ('b \<Rightarrow> 'c comp) \<Rightarrow> 'a \<Rightarrow> 'c comp" where
  "then_stage f k = (\<lambda>x. bindC (f x) k)"

definition patch_embedding_stage :: "VisionTransformer \<Rightarrow> tensor \<Rightarrow> tensor comp" where
  "patch_embedding_stage m = (\<lambda>x. liftC (PatchEmbedding_forward (patch_embed m) x))"

definition prepend_cls :: "tensor \<Rightarrow> nat \<Rightarrow> tensor \<Rightarrow> error + tensor" where
  "prepend_cls cls n x = bindE (expand [int n, - 1, - 1] cls) (\<lambda>c. cat c x 1)"

definition prepend_cls_stage :: "VisionTransformer \<Rightarrow> nat \<Rightarrow> tensor \<Rightarrow> tensor comp" where
  "prepend_cls_stage m n = (\<lambda>x. liftC (prepend_cls (cls_token m) n x))"

definition add_pos_stage :: "VisionTransformer \<Rightarrow> tensor \<Rightarrow> tensor comp" where
  "add_pos_stage m = (\<lambda>x. liftC (add_t x (pos_embed m)))"

definition dropout_stage :: "VisionTransformer \<Rightarrow> tensor \<Rightarrow> tensor comp" where
  "dropout_stage m = Dropout_forward (pos_drop m)"

definition blocks_stage :: "VisionTransformer \<Rightarrow> tensor \<Rightarrow> tensor comp" where
  "blocks_stage m = foldl (\<lambda>k b. then_stage k (Block_forward b)) returnC (blocks m)"

definition norm_stage :: "VisionTransformer \<Rightarrow> tensor \<Rightarrow> tensor comp" where
  "norm_stage m = (\<lambda>x. liftC (LayerNorm_forward (norm_f m) x))"

definition select_cls_stage :: "tensor \<Rightarrow> tensor comp" where
  "select_cls_stage = (\<lambda>x. liftC (select 1 0 x))"

definition head_stage :: "VisionTransformer \<Rightarrow> tensor \<Rightarrow> tensor comp" where
  "head_stage m = (\<lambda>x. liftC (Linear_forward (head m) x))"

definition vit_pipeline :: "VisionTransformer \<Rightarrow> nat \<Rightarrow> tensor \<Rightarrow> tensor comp" where
  "vit_pipeline m n =
     foldl then_stage returnC
       [patch_embedding_stage m, prepend_cls_stage m n, add_pos_stage m, dropout_stage m,
        blocks_stage m, norm_stage m, select_cls_stage, head_stage m]"

text \<open>
  The patch in row \<open>i\<close> and column \<open>j\<close> of the grid of non-overlapping \<open>p \<times> p\<close> tiles of
  image \<open>b\<close>: its pixel \<open>(u, v)\<close> in channel \<open>ch\<close>. The linear projection of that patch with
  the weight and bias of the convolution, for output feature \<open>oc\<close>: the same weight and
  bias for every patch.
\<close>

definition patch_pixel :: "tensor \<Rightarrow> nat \<Rightarrow> nat \<Rightarrow> nat \<Rightarrow> nat \<Rightarrow> nat \<Rightarrow> nat \<Rightarrow> nat \<Rightarrow> real" where
  "patch_pixel x p b i j ch u v = elem x [b, ch, i * p + u, j * p + v]"

definition project_patch :: "Conv2d \<Rightarrow> nat \<Rightarrow> nat \<Rightarrow> tensor \<Rightarrow> nat \<Rightarrow> nat \<Rightarrow> nat \<Rightarrow> nat \<Rightarrow> real" where
  "project_patch c n_in p x b i j oc =
     elem (conv_bias c) [oc]
     + sum_list (map (\<lambda>ch. sum_list (map (\<lambda>u. sum_list (map (\<lambda>v.
         elem (conv_weight c) [oc, ch, u, v] * patch_pixel x p b i j ch u v)
         [0..<p])) [0..<p])) [0..<n_in])"

section \<open>Index arithmetic\<close>

lemma ravel_lt: "valid_index shp idx \<Longrightarrow> ravel shp idx < numel shp"
  unfolding valid_index_def
proof (induction idx shp rule: list_all2_induct)
  case Nil
  then show ?case by (simp add: numel_def)
next
  case (Cons i js d ds)
  have "i * numel ds + ravel ds js < i * numel ds + numel ds" using Cons by simp
  also have "\<dots> = Suc i * numel ds" by simp
  also have "\<dots> \<le> d * numel ds" using Cons(1) by (intro mult_le_mono1) simp
  finally show ?case by (simp add: numel_def)
qed

lemma unravel_ravel: "valid_index shp idx \<Longrightarrow> unravel shp (ravel shp idx) = idx"
  unfolding valid_index_def
proof (induction idx shp rule: list_all2_induct)
  case Nil
  then show ?case by simp
next
  case (Cons i js d ds)
  have lt: "ravel ds js < numel ds" using Cons(2) ravel_lt by (simp add: valid_index_def)
  then show ?case using Cons by simp
qed

lemma elem_tabulate: "valid_index shp idx \<Longrightarrow> elem (tabulate shp f) idx = f idx"
  by (simp add: elem_def tabulate_def ravel_lt unravel_ravel)

lemma shape_tabulate [simp]: "shape (tabulate shp f) = shp"
  by (simp add: tabulate_def)

section \<open>Rules for results and computations\<close>

lemma bindE_Inr [simp]: "bindE (Inr v) f = f v"
  by (simp add: bindE_def)

lemma bindE_Inl [simp]: "bindE (Inl e) f = Inl e"
  by (simp add: bindE_def)

lemma okE_Inr [simp]: "okE (Inr y) P = P y"
  by (simp add: okE_def)

lemma okE_Inl [simp]: "okE (Inl e) P = False"
  by (simp add: okE_def)

lemma okE_D: "okE r P \<Longrightarrow> \<exists>y. r = Inr y \<and> P y"
  by (cases r) simp_all

lemma okE_bindE: "okE r P \<Longrightarrow> (\<And>y. P y \<Longrightarrow> okE (f y) Q) \<Longrightarrow> okE (bindE r f) Q"
  by (cases r) simp_all

lemma okE_weaken: "okE r P \<Longrightarrow> (\<And>y. P y \<Longrightarrow> Q y) \<Longrightarrow> okE r Q"
  by (cases r) simp_all

lemma okC_returnC [simp]: "okC (returnC v) P = P v"
  by (simp add: okC_def returnC_def)

lemma okC_liftC [simp]: "okC (liftC r) P = okE r P"
  by (simp add: okC_def liftC_def)

lemma okC_bindC: "okC m P \<Longrightarrow> (\<And>y. P y \<Longrightarrow> okC (f y) Q) \<Longrightarrow> okC (bindC m f) Q"
  unfolding okC_def bindC_def
proof
  fix g
  assume m: "\<forall>g. okE (fst (m g)) P" and f: "\<And>y. P y \<Longrightarrow> \<forall>g. okE (fst (f y g)) Q"
  obtain r g' where mg: "m g = (r, g')" by (cases "m g")
  with m have "okE r P" by (metis fst_conv)
  then obtain y where "r = Inr y" "P y" by (auto dest: okE_D)
  then show "okE (fst (case m g of (Inl e, g') \<Rightarrow> (Inl e, g') | (Inr v, g') \<Rightarrow> f v g')) Q"
    using mg f by simp
qed

lemma okC_weaken: "okC c P \<Longrightarrow> (\<And>y. P y \<Longrightarrow> Q y) \<Longrightarrow> okC c Q"
  unfolding okC_def by (blast intro: okE_weaken)

lemma okC_D: "okC c P \<Longrightarrow> \<exists>y g'. c g = (Inr y, g') \<and> P y"
  unfolding okC_def by (metis okE_D prod.collapse)

section \<open>Shapes of the library operations\<close>

lemma norm_dim_nonneg: "k < r \<Longrightarrow> norm_dim r (int k) = Inr k"
  by (simp add: norm_dim_def)

lemma norm_dim_neg: "0 < k \<Longrightarrow> k \<le> r \<Longrightarrow> norm_dim r (- int k) = Inr (r - k)"
  by (auto simp add: norm_dim_def nat_diff_distrib)

lemma reshape_okE: "numel shp = numel (shape t) \<Longrightarrow> okE (reshape shp t) (\<lambda>y. shape y = shp)"
  by (simp add: reshape_def)

lemma rand_okC: "okC (rand shp) (\<lambda>t. shape t = shp)"
  by (simp add: okC_def rand_def draw_def)

lemma Dropout_forward_okC: "P x \<Longrightarrow> (\<And>vs. P (x\<lparr>vals := vs\<rparr>)) \<Longrightarrow> okC (Dropout_forward d x) P"
  by (simp add: Dropout_forward_def okC_def returnC_def draw_def)

lemma Dropout_forward_shape: "okC (Dropout_forward d x) (\<lambda>y. shape y = shape x)"
  by (rule Dropout_forward_okC) simp_all

lemma Dropout_init_okC:
  "0 \<le> q \<Longrightarrow> q \<le> 1 \<Longrightarrow> okC (Dropout_init q) (\<lambda>d. drop_p d = q \<and> training d)"
  by (simp add: Dropout_init_def)

lemma Linear_init_okC:
  "okC (Linear_init (int n_in) (int n_out) b) (Linear_ok n_in n_out)"
  unfolding Linear_init_def
  by (auto intro!: okC_bindC [OF rand_okC] simp: Linear_ok_def)

lemma Linear_forward_okE:
  "Linear_ok n_in n_out l \<Longrightarrow> shape x = pre @ [n_in] \<Longrightarrow>
   okE (Linear_forward l x) (\<lambda>y. shape y = pre @ [n_out])"
  by (simp add: Linear_forward_def Linear_ok_def)

lemma LayerNorm_init_ok: "LayerNorm_ok n (LayerNorm_init n)"
  by (simp add: LayerNorm_ok_def LayerNorm_init_def full_def)

lemma LayerNorm_forward_okE:
  "LayerNorm_ok n l \<Longrightarrow> shape x = pre @ [n] \<Longrightarrow>
   okE (LayerNorm_forward l x) (\<lambda>y. shape y = pre @ [n])"
  by (simp add: LayerNorm_forward_def LayerNorm_ok_def)

lemma broadcast_shapes_same: "broadcast_shapes s s = Some s"
  by (induction s) simp_all

lemma add_t_same_okE: "shape a = s \<Longrightarrow> shape b = s \<Longrightarrow> okE (add_t a b) (\<lambda>y. shape y = s)"
  by (simp add: add_t_def pad_shape_def broadcast_shapes_same)

lemma transpose4_last:
  "shape t = [a, b, c, d] \<Longrightarrow>
   transpose_t (- 2) (- 1) t = Inr (tabulate [a, b, d, c] (\<lambda>idx. elem t (swap 2 3 idx)))"
  by (simp add: transpose_t_def norm_dim_def swap_def eval_nat_numeral)

lemma transpose4_mid:
  "shape t = [a, b, c, d] \<Longrightarrow>
   transpose_t 1 2 t = Inr (tabulate [a, c, b, d] (\<lambda>idx. elem t (swap 1 2 idx)))"
  by (simp add: transpose_t_def norm_dim_def swap_def eval_nat_numeral)

lemma transpose3_mid:
  "shape t = [a, b, c] \<Longrightarrow>
   transpose_t 1 2 t = Inr (tabulate [a, c, b] (\<lambda>idx. elem t (swap 1 2 idx)))"
  by (simp add: transpose_t_def norm_dim_def swap_def eval_nat_numeral)

lemma sort_perm5: "sort [2, 0, 3, 1, 4 :: nat] = [0..<5]"
  by code_simp

lemma permute5:
  "shape t = [a, b, c, d, e] \<Longrightarrow>
   permute [2, 0, 3, 1, 4] t =
     Inr (tabulate [c, a, d, b, e]
            (\<lambda>idx. elem t (map (\<lambda>a. idx ! index_of a [2, 0, 3, 1, 4]) [0..<5])))"
  using sort_perm5 by (simp add: permute_def eval_nat_numeral del: upt_Suc)

lemma select0:
  "shape t = n # s \<Longrightarrow> i < n \<Longrightarrow>
   select 0 i t = Inr (tabulate s (\<lambda>idx. elem t (i # idx)))"
  by (simp add: select_def)

lemma select1:
  "shape t = a # n # s \<Longrightarrow> i < n \<Longrightarrow>
   select 1 i t = Inr (tabulate (a # s) (\<lambda>idx. elem t (take 1 idx @ [i] @ drop 1 idx)))"
  by (simp add: select_def)

lemma matmul4:
  "shape a = [b1, b2, n, m] \<Longrightarrow> shape b = [b1, b2, m, p] \<Longrightarrow>
   matmul a b =
     Inr (tabulate [b1, b2, n, p]
            (\<lambda>idx. sum_list (map (\<lambda>k. elem a (take 2 idx @ [idx ! 2, k])
                                      * elem b (take 2 idx @ [k, idx ! 3]))
                              [0..<m])))"
  by (simp add: matmul_def Let_def eval_nat_numeral)

lemma softmax_last4:
  "shape t = [a, b, c, d] \<Longrightarrow>
   softmax (- 1) t =
     Inr (tabulate [a, b, c, d]
            (\<lambda>idx. exp (elem t idx) / sum_list (map (\<lambda>j. exp (elem t (idx[3 := j]))) [0..<d])))"
  by (simp add: softmax_def norm_dim_def eval_nat_numeral)

lemma shape_mul_scalar [simp]: "shape (mul_scalar t c) = shape t"
  by (simp add: mul_scalar_def)

lemma shape_apply_act [simp]: "shape (apply_act f t) = shape t"
  by (simp add: apply_act_def)

lemma okC_liftI: "okE r P \<Longrightarrow> okC (liftC r) P"
  by simp

lemma Attention_qkv_okE:
  assumes ok: "Attention_ok d h a" and dvd: "h dvd d" and x: "shape x = [B, T, d]"
  shows "okE (Attention_qkv a B T x)
           (\<lambda>(q, k, v). shape q = [B, h, T, d div h] \<and> shape k = [B, h, T, d div h]
                         \<and> shape v = [B, h, T, d div h])"
proof -
  have lin: "Linear_ok d (d * 3) (qkv a)" and nh: "n_heads a = h" and hd: "head_dim a = d div h"
    using ok by (simp_all add: Attention_ok_def)
  from Linear_forward_okE [OF lin, of x "[B, T]"] x
  obtain qkv1 where 1: "Linear_forward (qkv a) x = Inr qkv1" and s1: "shape qkv1 = [B, T, d * 3]"
    by (auto dest: okE_D)
  have "h * (d div h) = d" using dvd by simp
  then have "B * (T * (3 * (h * (d div h)))) = B * (T * (d * 3))" by simp
  then have n: "numel [B, T, 3, h, d div h] = numel (shape qkv1)"
    by (simp add: numel_def s1)
  define qkv2 where "qkv2 = qkv1\<lparr>shape := [B, T, 3, h, d div h]\<rparr>"
  have 2: "reshape [B, T, 3, n_heads a, head_dim a] qkv1 = Inr qkv2"
    using n by (simp add: reshape_def nh hd qkv2_def)
  have s2: "shape qkv2 = [B, T, 3, h, d div h]" by (simp add: qkv2_def)
  note 3 = permute5 [OF s2]
  have sel: "select 0 i (tabulate [3, B, h, T, d div h] f)
             = Inr (tabulate [B, h, T, d div h] (\<lambda>idx. elem (tabulate [3, B, h, T, d div h] f) (i # idx)))"
    if "i < 3" for i f
    using that by (intro select0) simp_all
  have i3: "(0::nat) < 3" "(1::nat) < 3" "(2::nat) < 3" by simp_all
  show ?thesis
    unfolding Attention_qkv_def 1 2 3 bindE_Inr sel [OF i3(1)] sel [OF i3(2)] sel [OF i3(3)]
    by simp
qed

lemma Attention_dp_okE:
  assumes "shape q = [B, h, T, e]" and "shape k = [B, h, T, e]"
  shows "okE (Attention_dp a q k) (\<lambda>y. shape y = [B, h, T, T])"
  unfolding Attention_dp_def
  by (simp add: transpose4_last [OF assms(2)] matmul4 [OF assms(1)])

lemma Attention_attn_okE:
  assumes "shape q = [B, h, T, e]" and "shape k = [B, h, T, e]"
  shows "okE (Attention_attn a q k) (\<lambda>y. shape y = [B, h, T, T])"
proof -
  from Attention_dp_okE [OF assms] obtain dp where
    "Attention_dp a q k = Inr dp" "shape dp = [B, h, T, T]"
    by (auto dest: okE_D)
  then show ?thesis
    by (simp add: Attention_attn_def softmax_last4)
qed

lemma okC_bind_lift: "okE r P \<Longrightarrow> (\<And>y. P y \<Longrightarrow> okC (f y) Q) \<Longrightarrow> okC (bindC (liftC r) f) Q"
  by (rule okC_bindC [where P = P]) simp_all

lemma matmul4_okE:
  "shape a = [b1, b2, n, m] \<Longrightarrow> shape b = [b1, b2, m, p] \<Longrightarrow>
   okE (matmul a b) (\<lambda>y. shape y = [b1, b2, n, p])"
  by (simp add: matmul4)

lemma transpose4_mid_okE:
  "shape t = [a, b, c, d] \<Longrightarrow> okE (transpose_t 1 2 t) (\<lambda>y. shape y = [a, c, b, d])"
  by (simp add: transpose4_mid)

lemma Attention_out_okC:
  assumes lin: "Linear_ok d d (proj a)" and hd: "h * e = d"
    and w: "shape attn2 = [B, h, T, T]" and v: "shape v = [B, h, T, e]"
  shows "okC (Attention_out a B T d attn2 v) (\<lambda>y. shape y = [B, T, d])"
  unfolding Attention_out_def
proof (rule okC_bind_lift [OF matmul4_okE [OF w v]])
  fix weighted_avg :: tensor
  assume 1: "shape weighted_avg = [B, h, T, e]"
  show "okC (bindC (liftC (transpose_t 1 2 weighted_avg)) (\<lambda>wa1.
          bindC (liftC (reshape [B, T, d] wa1)) (\<lambda>wa2.
          bindC (liftC (Linear_forward (proj a) wa2)) (\<lambda>x1.
          Dropout_forward (proj_drop a) x1)))) (\<lambda>y. shape y = [B, T, d])"
  proof (rule okC_bind_lift [OF transpose4_mid_okE [OF 1]])
    fix wa1 :: tensor
    assume 2: "shape wa1 = [B, T, h, e]"
    have n: "numel [B, T, d] = numel (shape wa1)"
      using hd by (simp add: numel_def 2)
    show "okC (bindC (liftC (reshape [B, T, d] wa1)) (\<lambda>wa2.
            bindC (liftC (Linear_forward (proj a) wa2)) (\<lambda>x1.
            Dropout_forward (proj_drop a) x1))) (\<lambda>y. shape y = [B, T, d])"
    proof (rule okC_bind_lift [OF reshape_okE [OF n]])
      fix wa2 :: tensor
      assume 3: "shape wa2 = [B, T, d]"
      have 4: "okE (Linear_forward (proj a) wa2) (\<lambda>y. shape y = [B, T, d])"
        using Linear_forward_okE [OF lin, of wa2 "[B, T]"] 3 by simp
      show "okC (bindC (liftC (Linear_forward (proj a) wa2)) (\<lambda>x1.
              Dropout_forward (proj_drop a) x1)) (\<lambda>y. shape y = [B, T, d])"
      proof (rule okC_bind_lift [OF 4])
        fix x1 :: tensor
        assume "shape x1 = [B, T, d]"
        then show "okC (Dropout_forward (proj_drop a) x1) (\<lambda>y. shape y = [B, T, d])"
          using Dropout_forward_shape [of "proj_drop a" x1] by simp
      qed
    qed
  qed
qed

lemma Attention_forward_okC:
  assumes ok: "Attention_ok d h a" and dvd: "h dvd d" and x: "shape x = [B, T, d]"
  shows "okC (Attention_forward a x) (\<lambda>y. shape y = [B, T, d])"
proof -
  have lin: "Linear_ok d d (proj a)" and da: "dim a = d"
    using ok by (simp_all add: Attention_ok_def)
  have hd: "h * (d div h) = d" using dvd by simp
  show ?thesis
    apply (simp add: Attention_forward_def x da)
    apply (rule okC_bindC [OF okC_liftI [OF Attention_qkv_okE [OF ok dvd x]]])
    apply clarsimp
    apply (rule okC_bindC [where P = "\<lambda>y. shape y = [B, h, T, T]"])
     apply (rule okC_liftI, erule (1) Attention_attn_okE)
    apply (rule okC_bindC [OF Dropout_forward_shape])
    apply (rule Attention_out_okC [OF lin hd])
     apply simp
    apply assumption
    done
qed

lemma MLP_forward_okC:
  assumes ok: "MLP_ok n_in n_hidden n_out m" and x: "shape x = pre @ [n_in]"
  shows "okC (MLP_forward m x) (\<lambda>y. shape y = pre @ [n_out])"
  unfolding MLP_forward_def
proof (rule okC_bind_lift [where P = "\<lambda>y. shape y = pre @ [n_hidden]"])
  show "okE (Linear_forward (fc1 m) x) (\<lambda>y. shape y = pre @ [n_hidden])"
    using ok x by (intro Linear_forward_okE) (simp_all add: MLP_ok_def)
next
  fix x1 :: tensor
  assume 1: "shape x1 = pre @ [n_hidden]"
  show "okC (bindC (Dropout_forward (mlp_drop m) (apply_act (act m) x1)) (\<lambda>x2.
          bindC (liftC (Linear_forward (fc2 m) x2)) (\<lambda>x3.
          Dropout_forward (mlp_drop m) x3))) (\<lambda>y. shape y = pre @ [n_out])"
  proof (rule okC_bindC [OF Dropout_forward_shape])
    fix x2 :: tensor
    assume "shape x2 = shape (apply_act (act m) x1)"
    then have 2: "shape x2 = pre @ [n_hidden]" using 1 by simp
    have 3: "okE (Linear_forward (fc2 m) x2) (\<lambda>y. shape y = pre @ [n_out])"
      using ok 2 by (intro Linear_forward_okE) (simp_all add: MLP_ok_def)
    show "okC (bindC (liftC (Linear_forward (fc2 m) x2)) (\<lambda>x3.
            Dropout_forward (mlp_drop m) x3)) (\<lambda>y. shape y = pre @ [n_out])"
    proof (rule okC_bind_lift [OF 3])
      fix x3 :: tensor
      assume "shape x3 = pre @ [n_out]"
      then show "okC (Dropout_forward (mlp_drop m) x3) (\<lambda>y. shape y = pre @ [n_out])"
        using Dropout_forward_shape [of "mlp_drop m" x3] by simp
    qed
  qed
qed

lemma Block_forward_okC:
  assumes ok: "Block_ok d h b" and dvd: "h dvd d" and x: "shape x = [B, T, d]"
  shows "okC (Block_forward b x) (\<lambda>y. shape y = [B, T, d])"
proof -
  have n1: "LayerNorm_ok d (norm1 b)" and at: "Attention_ok d h (attn b)"
    and n2: "LayerNorm_ok d (norm2 b)"
    using ok by (simp_all add: Block_ok_def)
  obtain n_hidden where ml: "MLP_ok d n_hidden d (mlp b)"
    using ok by (auto simp: Block_ok_def)
  have ln: "okE (LayerNorm_forward l t) (\<lambda>y. shape y = [B, T, d])"
    if "LayerNorm_ok d l" "shape t = [B, T, d]" for l and t :: tensor
    using LayerNorm_forward_okE [OF that(1), of t "[B, T]"] that(2) by simp
  show ?thesis
    unfolding Block_forward_def
  proof (rule okC_bind_lift [OF ln [OF n1 x]])
    fix n1' :: tensor
    assume s1: "shape n1' = [B, T, d]"
    show "okC (bindC (Attention_forward (attn b) n1') (\<lambda>a1.
            bindC (liftC (add_t x a1)) (\<lambda>x1.
            bindC (liftC (LayerNorm_forward (norm2 b) x1)) (\<lambda>n2.
            bindC (MLP_forward (mlp b) n2) (\<lambda>m1.
            liftC (add_t x1 m1)))))) (\<lambda>y. shape y = [B, T, d])"
    proof (rule okC_bindC [OF Attention_forward_okC [OF at dvd s1]])
      fix a1 :: tensor
      assume s2: "shape a1 = [B, T, d]"
      show "okC (bindC (liftC (add_t x a1)) (\<lambda>x1.
              bindC (liftC (LayerNorm_forward (norm2 b) x1)) (\<lambda>n2.
              bindC (MLP_forward (mlp b) n2) (\<lambda>m1.
              liftC (add_t x1 m1))))) (\<lambda>y. shape y = [B, T, d])"
      proof (rule okC_bind_lift [OF add_t_same_okE [OF x s2]])
        fix x1 :: tensor
        assume s3: "shape x1 = [B, T, d]"
        show "okC (bindC (liftC (LayerNorm_forward (norm2 b) x1)) (\<lambda>n2.
                bindC (MLP_forward (mlp b) n2) (\<lambda>m1.
                liftC (add_t x1 m1)))) (\<lambda>y. shape y = [B, T, d])"
        proof (rule okC_bind_lift [OF ln [OF n2 s3]])
          fix n2' :: tensor
          assume s4: "shape n2' = [B, T, d]"
          have m: "okC (MLP_forward (mlp b) n2') (\<lambda>y. shape y = [B, T, d])"
            using MLP_forward_okC [OF ml, of n2' "[B, T]"] s4 by simp
          show "okC (bindC (MLP_forward (mlp b) n2') (\<lambda>m1. liftC (add_t x1 m1)))
                  (\<lambda>y. shape y = [B, T, d])"
          proof (rule okC_bindC [OF m])
            fix m1 :: tensor
            assume "shape m1 = [B, T, d]"
            then show "okC (liftC (add_t x1 m1)) (\<lambda>y. shape y = [B, T, d])"
              using add_t_same_okE [OF s3] by simp
          qed
        qed
      qed
    qed
  qed
qed

lemma run_blocks_okC:
  assumes "list_all (Block_ok d h) bs" and "h dvd d" and "shape x = [B, T, d]"
  shows "okC (run_blocks bs x) (\<lambda>y. shape y = [B, T, d])"
  using assms
proof (induction bs arbitrary: x)
  case Nil
  then show ?case by simp
next
  case (Cons b bs)
  have b: "Block_ok d h b" and bs: "list_all (Block_ok d h) bs"
    using Cons.prems(1) by simp_all
  show ?case
    unfolding run_blocks.simps
    by (rule okC_bindC [OF Block_forward_okC [OF b Cons.prems(2) Cons.prems(3)]])
       (rule Cons.IH [OF bs Cons.prems(2)])
qed

section \<open>The constructors\<close>

lemma Conv2d_init_okC: "okC (Conv2d_init n_in n_out k k) (Conv2d_ok n_in n_out k)"
  unfolding Conv2d_init_def
  by (rule okC_bindC [OF rand_okC], rule okC_bindC [OF rand_okC]) (simp add: Conv2d_ok_def)

lemma PatchEmbedding_init_okC:
  "0 < p \<Longrightarrow>
   okC (PatchEmbedding_init S p n_in n_out)
     (\<lambda>pe. Conv2d_ok n_in n_out p (projection pe) \<and> n_patches pe = (S div p)\<^sup>2
            \<and> img_size pe = S \<and> patch_size pe = p)"
  unfolding PatchEmbedding_init_def
  by (simp, rule okC_bindC [OF Conv2d_init_okC]) simp

lemma Attention_init_okC:
  assumes "0 < h" and "h \<le> d" and "0 \<le> ap" and "ap \<le> 1" and "0 \<le> pp" and "pp \<le> 1"
  shows "okC (Attention_init d h qb ap pp)
           (\<lambda>a. Attention_ok d h a \<and> scale a = real (d div h) powr (- (1 / 2))
                 \<and> drop_p (attn_drop a) = ap \<and> drop_p (proj_drop a) = pp
                 \<and> training (attn_drop a) \<and> training (proj_drop a))"
proof -
  have nz: "d div h \<noteq> 0" using assms(1,2) by (simp add: div_eq_0_iff)
  have l1: "okC (Linear_init (int d) (int d * 3) qb) (Linear_ok d (d * 3))"
    using Linear_init_okC [of d "d * 3" qb] by simp
  show ?thesis
    unfolding Attention_init_def
    using assms(1) nz
    apply simp
    apply (rule okC_bindC [OF l1])
    apply (rule okC_bindC [OF Dropout_init_okC [OF assms(3,4)]])
    apply (rule okC_bindC [OF Linear_init_okC])
    apply (rule okC_bindC [OF Dropout_init_okC [OF assms(5,6)]])
    apply (simp add: Attention_ok_def)
    done
qed

lemma MLP_init_okC:
  assumes h: "or_default hf (int d) = int nh" and o: "or_default outf (int d) = int no"
    and "0 \<le> q" and "q \<le> 1"
  shows "okC (MLP_init (int d) hf outf q)
           (\<lambda>m. MLP_ok d nh no m \<and> drop_p (mlp_drop m) = q \<and> training (mlp_drop m))"
  unfolding MLP_init_def Let_def h o
  apply (rule okC_bindC [OF Linear_init_okC])
  apply (rule okC_bindC [OF Linear_init_okC])
  apply (rule okC_bindC [OF Dropout_init_okC [OF assms(3,4)]])
  apply (simp add: MLP_ok_def)
  done

lemma py_int_nonneg: "0 \<le> r \<Longrightarrow> 0 \<le> py_int r"
  by (simp add: py_int_def)

lemma Block_init_okC:
  assumes "0 < h" and "h \<le> d" and "0 \<le> r" and "0 \<le> ap" and "ap \<le> 1" and "0 \<le> pp" and "pp \<le> 1"
  shows "okC (Block_init d h r qb q ap pp)
           (\<lambda>b. Block_ok d h b \<and> scale (attn b) = real (d div h) powr (- (1 / 2))
                 \<and> drop_p (attn_drop (attn b)) = ap \<and> drop_p (proj_drop (attn b)) = pp
                 \<and> drop_p (mlp_drop (mlp b)) = 0)"
proof -
  have "0 \<le> py_int (real d * r)" using assms(3) by (intro py_int_nonneg) simp
  then have hid: "or_default (Some (py_int (real d * r))) (int d)
                  = int (nat (or_default (Some (py_int (real d * r))) (int d)))"
    by (simp add: or_default_def)
  have out: "or_default (Some (int d)) (int d) = int d" by (simp add: or_default_def)
  show ?thesis
    unfolding Block_init_def Let_def
    apply (rule okC_bindC [OF Attention_init_okC [OF assms(1,2,4,5,6,7)]])
    apply (rule okC_bindC [OF MLP_init_okC [OF hid out]])
      apply simp
     apply simp
    apply (auto simp add: Block_ok_def LayerNorm_init_ok)
    done
qed

lemma make_blocks_okC:
  assumes "okC mk P"
  shows "okC (make_blocks n mk) (\<lambda>bs. length bs = n \<and> list_all P bs)"
proof (induction n)
  case 0
  show ?case by simp
next
  case (Suc n)
  show ?case
    unfolding make_blocks.simps
    by (rule okC_bindC [OF assms], rule okC_bindC [OF Suc]) simp
qed

lemma list_all_weaken: "list_all P xs \<Longrightarrow> (\<And>x. P x \<Longrightarrow> Q x) \<Longrightarrow> list_all Q xs"
  by (induction xs) simp_all

lemma VisionTransformer_init_okC:
  assumes r: "args_in_range c" and h: "arg_n_heads c \<le> arg_embed_dim c"
  shows "okC (VisionTransformer_init c)
           (\<lambda>m. VisionTransformer_ok c m \<and> drop_p (pos_drop m) = arg_p c
                 \<and> n_patches (patch_embed m) = (arg_img_size c div arg_patch_size c)\<^sup>2
                 \<and> length (blocks m) = arg_depth c
                 \<and> list_all (\<lambda>b. scale (attn b) = real (arg_embed_dim c div arg_n_heads c) powr (- (1 / 2))
                               \<and> drop_p (attn_drop (attn b)) = arg_attn_p c
                               \<and> drop_p (proj_drop (attn b)) = arg_proj_p c
                               \<and> drop_p (mlp_drop (mlp b)) = 0) (blocks m))"
proof -
  have p: "0 < arg_patch_size c" and hp: "0 < arg_n_heads c" and mr: "0 \<le> arg_mlp_ratio c"
    and pr: "0 \<le> arg_p c" "arg_p c \<le> 1" and ar: "0 \<le> arg_attn_p c" "arg_attn_p c \<le> 1"
    and qr: "0 \<le> arg_proj_p c" "arg_proj_p c \<le> 1"
    using r by (simp_all add: args_in_range_def)
  note blk = Block_init_okC [OF hp h mr ar qr, of "arg_qkv_bias c" "arg_p c"]
  show ?thesis
    unfolding VisionTransformer_init_def
    apply (rule okC_bindC [OF PatchEmbedding_init_okC [OF p]])
    apply (rule okC_bindC [OF rand_okC])
    apply (rule okC_bindC [OF rand_okC])
    apply (rule okC_bindC [OF Dropout_init_okC [OF pr]])
    apply (rule okC_bindC [OF make_blocks_okC [OF blk]])
    apply (rule okC_bindC [OF Linear_init_okC])
    apply (auto simp add: VisionTransformer_ok_def LayerNorm_init_ok elim: list_all_weaken)
    done
qed

lemma VisionTransformer_init_ok:
  assumes "args_in_range c" and "arg_n_heads c \<le> arg_embed_dim c"
  shows "okC (VisionTransformer_init c) (VisionTransformer_ok c)"
  by (rule okC_weaken [OF VisionTransformer_init_okC [OF assms]]) simp

section \<open>PatchEmbedding.forward\<close>

lemma conv_out_size: "0 < (p::nat) \<Longrightarrow> p \<le> S \<Longrightarrow> (S - p) div p + 1 = S div p"
  using le_div_geq [of p S] by simp

lemma Conv2d_forward_eq:
  assumes "Conv2d_ok C E p c" and "0 < p" and "p \<le> S" and "shape x = [B, C, S, S]"
    and "0 < C" and "0 < E"
  shows "Conv2d_forward c x =
     Inr (tabulate [B, E, S div p, S div p]
            (\<lambda>idx. elem (conv_bias c) [idx ! 1]
                         + sum_list (map (\<lambda>ch.
                             sum_list (map (\<lambda>u.
                               sum_list (map (\<lambda>v.
                                 elem (conv_weight c) [idx ! 1, ch, u, v]
                                 * elem x [idx ! 0, ch, idx ! 2 * p + u, idx ! 3 * p + v])
                               [0..<p]))
                             [0..<p]))
                           [0..<C])))"
  using assms conv_out_size [OF assms(2,3)]
  by (simp add: Conv2d_forward_def Conv2d_ok_def)

lemma flatten4:
  "shape t = [a, b, c, d] \<Longrightarrow> flatten 2 t = Inr (t\<lparr>shape := [a, b, c * d]\<rparr>)"
  by (simp add: flatten_def norm_dim_def numel_def)

lemma vals_tabulate_nth: "n < numel shp \<Longrightarrow> vals (tabulate shp f) ! n = f (unravel shp n)"
  by (simp add: tabulate_def)

lemma valid_index_Cons [simp]: "valid_index (d # ds) (i # js) = (i < d \<and> valid_index ds js)"
  by (simp add: valid_index_def)

lemma valid_index_Nil [simp]: "valid_index [] []"
  by (simp add: valid_index_def)

lemma elem_flatten_tabulate:
  assumes "b < B" and "oc < E" and "k < g * g"
  shows "elem ((tabulate [B, E, g, g] f)\<lparr>shape := [B, E, g * g]\<rparr>) [b, oc, k]
         = f [b, oc, k div g, k mod g]"
proof -
  have g: "0 < g" using assms(3) by (cases g) simp_all
  have kd: "k div g < g" using assms(3) g by (simp add: less_mult_imp_div_less)
  have v: "valid_index [B, E, g, g] [b, oc, k div g, k mod g]"
    using assms kd g by simp
  have r: "ravel [B, E, g * g] [b, oc, k] = ravel [B, E, g, g] [b, oc, k div g, k mod g]"
    by (simp add: numel_def algebra_simps)
  have "elem ((tabulate [B, E, g, g] f)\<lparr>shape := [B, E, g * g]\<rparr>) [b, oc, k]
        = vals (tabulate [B, E, g, g] f) ! ravel [B, E, g * g] [b, oc, k]"
    by (simp add: elem_def)
  also have "\<dots> = vals (tabulate [B, E, g, g] f) ! ravel [B, E, g, g] [b, oc, k div g, k mod g]"
    by (simp only: r)
  also have "\<dots> = f (unravel [B, E, g, g] (ravel [B, E, g, g] [b, oc, k div g, k mod g]))"
    by (rule vals_tabulate_nth) (rule ravel_lt [OF v])
  also have "\<dots> = f [b, oc, k div g, k mod g]"
    by (simp only: unravel_ravel [OF v])
  finally show ?thesis .
qed

lemma PatchEmbedding_forward_eq:
  assumes ok: "Conv2d_ok C E p (projection pe)" and p: "0 < p" "p \<le> S"
    and x: "shape x = [B, C, S, S]" and ch: "0 < C" "0 < E"
  shows "\<exists>y. PatchEmbedding_forward pe x = Inr y \<and> shape y = [B, (S div p)\<^sup>2, E]
             \<and> (\<forall>b k oc. b < B \<and> k < (S div p)\<^sup>2 \<and> oc < E \<longrightarrow>
                  elem y [b, k, oc]
                  = project_patch (projection pe) C p x b (k div (S div p)) (k mod (S div p)) oc)"
proof -
  define g where "g = S div p"
  define f where "f = (\<lambda>idx. elem (conv_bias (projection pe)) [idx ! 1]
                         + sum_list (map (\<lambda>ch.
                             sum_list (map (\<lambda>u.
                               sum_list (map (\<lambda>v.
                                 elem (conv_weight (projection pe)) [idx ! 1, ch, u, v]
                                 * elem x [idx ! 0, ch, idx ! 2 * p + u, idx ! 3 * p + v])
                               [0..<p]))
                             [0..<p]))
                           [0..<C]))"
  define x2 where "x2 = (tabulate [B, E, g, g] f)\<lparr>shape := [B, E, g * g]\<rparr>"
  define y where "y = tabulate [B, g * g, E] (\<lambda>idx. elem x2 (swap 1 2 idx))"
  have 1: "Conv2d_forward (projection pe) x = Inr (tabulate [B, E, g, g] f)"
    unfolding g_def f_def by (rule Conv2d_forward_eq [OF ok p x ch])
  have 2: "flatten 2 (tabulate [B, E, g, g] f) = Inr x2"
    unfolding x2_def by (rule flatten4) simp
  have 3: "transpose_t 1 2 x2 = Inr y"
    unfolding y_def by (rule transpose3_mid) (simp add: x2_def)
  have r: "PatchEmbedding_forward pe x = Inr y"
    unfolding PatchEmbedding_forward_def 1 bindE_Inr 2 3 ..
  have s: "shape y = [B, (S div p)\<^sup>2, E]"
    by (simp add: y_def g_def power2_eq_square)
  have v: "elem y [b, k, oc] = project_patch (projection pe) C p x b (k div g) (k mod g) oc"
    if "b < B" "k < g * g" "oc < E" for b k oc
  proof -
    have "elem y [b, k, oc] = elem x2 (swap 1 2 [b, k, oc])"
      unfolding y_def using that by (intro elem_tabulate) simp
    also have "\<dots> = elem x2 [b, oc, k]"
      by (simp add: swap_def)
    also have "\<dots> = f [b, oc, k div g, k mod g]"
      unfolding x2_def using that by (intro elem_flatten_tabulate)
    also have "\<dots> = project_patch (projection pe) C p x b (k div g) (k mod g) oc"
      by (simp add: f_def project_patch_def patch_pixel_def)
    finally show ?thesis .
  qed
  show ?thesis
    using r s v by (auto simp add: g_def power2_eq_square)
qed

lemma PatchEmbedding_forward_okE:
  assumes "Conv2d_ok C E p (projection pe)" and "0 < p" and "p \<le> S" and "shape x = [B, C, S, S]"
    and "0 < C" and "0 < E"
  shows "okE (PatchEmbedding_forward pe x) (\<lambda>y. shape y = [B, (S div p)\<^sup>2, E])"
  using PatchEmbedding_forward_eq [OF assms] by auto

lemma expand_cls:
  "shape t = [1, 1, E] \<Longrightarrow>
   expand [int B, - 1, - 1] t = Inr (tabulate [B, 1, E] (\<lambda>idx. elem t (broadcast_index [1, 1, E] idx)))"
  by (simp add: expand_def expand_dim_def)

lemma cat_tokens:
  "shape a = [B, 1, E] \<Longrightarrow> shape b = [B, n, E] \<Longrightarrow>
   cat a b 1 = Inr (tabulate [B, n + 1, E]
                      (\<lambda>idx. if idx ! 1 < 1 then elem a idx else elem b (idx[1 := idx ! 1 - 1])))"
  by (simp add: cat_def cong: if_cong)

lemma add_pos:
  "shape a = [B, T, E] \<Longrightarrow> shape b = [1, T, E] \<Longrightarrow>
   add_t a b = Inr (tabulate [B, T, E]
                      (\<lambda>idx. elem a (broadcast_index [B, T, E] idx)
                             + elem b (broadcast_index [1, T, E] idx)))"
  by (simp add: add_t_def pad_shape_def broadcast_shapes_same)

lemma VisionTransformer_forward_okC:
  assumes ok: "VisionTransformer_ok c m"
    and p: "0 < arg_patch_size c" "arg_patch_size c \<le> arg_img_size c"
    and dvd: "arg_n_heads c dvd arg_embed_dim c"
    and x: "shape x = [B, arg_in_channels c, arg_img_size c, arg_img_size c]"
    and ch: "0 < arg_in_channels c" "0 < arg_embed_dim c"
  shows "okC (VisionTransformer_forward m x) (\<lambda>y. shape y = [B, arg_n_classes c])"
proof -
  define E where "E = arg_embed_dim c"
  have chE: "0 < E" using ch(2) by (simp add: E_def)
  define n where "n = (arg_img_size c div arg_patch_size c)\<^sup>2"
  have conv: "Conv2d_ok (arg_in_channels c) E (arg_patch_size c) (projection (patch_embed m))"
    and cls: "shape (cls_token m) = [1, 1, E]"
    and pos: "shape (pos_embed m) = [1, n + 1, E]"
    and bs: "list_all (Block_ok E (arg_n_heads c)) (blocks m)"
    and nf: "LayerNorm_ok E (norm_f m)"
    and hd: "Linear_ok E (arg_n_classes c) (head m)"
    using ok by (simp_all add: VisionTransformer_ok_def E_def n_def)
  have pe: "okE (PatchEmbedding_forward (patch_embed m) x) (\<lambda>y. shape y = [B, n, E])"
    unfolding n_def by (rule PatchEmbedding_forward_okE [OF conv p x ch(1) chE])
  have ex: "okE (expand [int B, - 1, - 1] (cls_token m)) (\<lambda>y. shape y = [B, 1, E])"
    using expand_cls [OF cls, of B] by simp
  have "okC (bindC (liftC (PatchEmbedding_forward (patch_embed m) x)) (\<lambda>x1.
          bindC (liftC (expand [int B, - 1, - 1] (cls_token m))) (\<lambda>cls.
          bindC (liftC (cat cls x1 1)) (\<lambda>x2.
          bindC (liftC (add_t x2 (pos_embed m))) (\<lambda>x3.
          bindC (Dropout_forward (pos_drop m) x3) (\<lambda>x4.
          bindC (run_blocks (blocks m) x4) (\<lambda>x5.
          bindC (liftC (LayerNorm_forward (norm_f m) x5)) (\<lambda>x6.
          bindC (liftC (select 1 0 x6)) (\<lambda>x7.
          liftC (Linear_forward (head m) x7))))))))))
         (\<lambda>y. shape y = [B, arg_n_classes c])"
  proof (rule okC_bind_lift [OF pe], rule okC_bind_lift [OF ex])
    fix x1 cls1 :: tensor
    assume s1: "shape x1 = [B, n, E]" and sc: "shape cls1 = [B, 1, E]"
    have ct: "okE (cat cls1 x1 1) (\<lambda>y. shape y = [B, n + 1, E])"
      using cat_tokens [OF sc s1] by simp
    show "okC (bindC (liftC (cat cls1 x1 1)) (\<lambda>x2.
          bindC (liftC (add_t x2 (pos_embed m))) (\<lambda>x3.
          bindC (Dropout_forward (pos_drop m) x3) (\<lambda>x4.
          bindC (run_blocks (blocks m) x4) (\<lambda>x5.
          bindC (liftC (LayerNorm_forward (norm_f m) x5)) (\<lambda>x6.
          bindC (liftC (select 1 0 x6)) (\<lambda>x7.
          liftC (Linear_forward (head m) x7))))))))
         (\<lambda>y. shape y = [B, arg_n_classes c])"
    proof (rule okC_bind_lift [OF ct])
      fix x2 :: tensor
      assume s2: "shape x2 = [B, n + 1, E]"
      have ad: "okE (add_t x2 (pos_embed m)) (\<lambda>y. shape y = [B, n + 1, E])"
        using add_pos [OF s2 pos] by simp
      show "okC (bindC (liftC (add_t x2 (pos_embed m))) (\<lambda>x3.
          bindC (Dropout_forward (pos_drop m) x3) (\<lambda>x4.
          bindC (run_blocks (blocks m) x4) (\<lambda>x5.
          bindC (liftC (LayerNorm_forward (norm_f m) x5)) (\<lambda>x6.
          bindC (liftC (select 1 0 x6)) (\<lambda>x7.
          liftC (Linear_forward (head m) x7)))))))
         (\<lambda>y. shape y = [B, arg_n_classes c])"
      proof (rule okC_bind_lift [OF ad], rule okC_bindC [OF Dropout_forward_shape])
        fix x3 x4 :: tensor
        assume "shape x3 = [B, n + 1, E]" and "shape x4 = shape x3"
        then have s4: "shape x4 = [B, n + 1, E]" by simp
        note rb = run_blocks_okC [OF bs _ s4]
        show "okC (bindC (run_blocks (blocks m) x4) (\<lambda>x5.
          bindC (liftC (LayerNorm_forward (norm_f m) x5)) (\<lambda>x6.
          bindC (liftC (select 1 0 x6)) (\<lambda>x7.
          liftC (Linear_forward (head m) x7)))))
         (\<lambda>y. shape y = [B, arg_n_classes c])"
        proof (rule okC_bindC [OF rb])
          show "arg_n_heads c dvd E" using dvd by (simp add: E_def)
        next
          fix x5 :: tensor
          assume s5: "shape x5 = [B, n + 1, E]"
          have ln: "okE (LayerNorm_forward (norm_f m) x5) (\<lambda>y. shape y = [B, n + 1, E])"
            using LayerNorm_forward_okE [OF nf, of x5 "[B, n + 1]"] s5 by simp
          show "okC (bindC (liftC (LayerNorm_forward (norm_f m) x5)) (\<lambda>x6.
            bindC (liftC (select 1 0 x6)) (\<lambda>x7.
            liftC (Linear_forward (head m) x7))))
           (\<lambda>y. shape y = [B, arg_n_classes c])"
          proof (rule okC_bind_lift [OF ln])
            fix x6 :: tensor
            assume s6: "shape x6 = [B, n + 1, E]"
            have sl: "okE (select 1 0 x6) (\<lambda>y. shape y = [B, E])"
              using select1 [OF s6, of 0] by simp
            show "okC (bindC (liftC (select 1 0 x6)) (\<lambda>x7.
              liftC (Linear_forward (head m) x7)))
             (\<lambda>y. shape y = [B, arg_n_classes c])"
            proof (rule okC_bind_lift [OF sl])
              fix x7 :: tensor
              assume s7: "shape x7 = [B, E]"
              show "okC (liftC (Linear_forward (head m) x7)) (\<lambda>y. shape y = [B, arg_n_classes c])"
                using Linear_forward_okE [OF hd, of x7 "[B]"] s7 by simp
            qed
          qed
        qed
      qed
    qed
  qed
  then show ?thesis
    by (simp add: VisionTransformer_forward_def x)
qed

section \<open>Training mode does not change the parameter shapes\<close>

lemma Attention_train_ok [simp]: "Attention_ok d h (Attention_train mode a) = Attention_ok d h a"
  by (simp add: Attention_ok_def Attention_train_def)

lemma MLP_train_ok [simp]: "MLP_ok i j k (MLP_train mode m) = MLP_ok i j k m"
  by (simp add: MLP_ok_def MLP_train_def)

lemma Block_train_ok [simp]: "Block_ok d h (Block_train mode b) = Block_ok d h b"
  by (simp add: Block_ok_def Block_train_def)

lemma VisionTransformer_train_ok [simp]:
  "VisionTransformer_ok c (VisionTransformer_train mode m) = VisionTransformer_ok c m"
  by (simp add: VisionTransformer_ok_def VisionTransformer_train_def list_all_iff)

lemma valid_args_le:
  assumes "valid_args c"
  shows "arg_patch_size c \<le> arg_img_size c" and "arg_n_heads c \<le> arg_embed_dim c"
  using assms by (auto simp add: valid_args_def args_in_range_def dest: dvd_imp_le)

section \<open>What a constructor returns, when it returns\<close>

lemma bindC_Inr_D:
  "bindC m f g = (Inr v, g') \<Longrightarrow> \<exists>y g1. m g = (Inr y, g1) \<and> f y g1 = (Inr v, g')"
  by (auto simp add: bindC_def split: prod.splits sum.splits)

lemma returnC_Inr_D: "returnC v g = (Inr w, g') \<Longrightarrow> w = v"
  by (simp add: returnC_def)

lemma Dropout_init_D: "Dropout_init q g = (Inr d, g') \<Longrightarrow> drop_p d = q \<and> training d"
  by (auto simp add: Dropout_init_def returnC_def raiseC_def split: if_splits)

lemma Attention_init_D:
  assumes "Attention_init d h qb ap pp g = (Inr a, g')"
  shows "drop_p (attn_drop a) = ap \<and> drop_p (proj_drop a) = pp
         \<and> training (attn_drop a) \<and> training (proj_drop a)"
proof -
  from assms obtain l1 g1 d1 g2 l2 g3 d2 g4 where
    "Dropout_init ap g1 = (Inr d1, g2)" "Dropout_init pp g3 = (Inr d2, g4)"
    "a = \<lparr>n_heads = h, dim = d, head_dim = d div h, scale = real (d div h) powr (- (1 / 2)),
          qkv = l1, attn_drop = d1, proj = l2, proj_drop = d2\<rparr>"
    unfolding Attention_init_def
    by (auto simp add: raiseC_def split: if_splits dest!: bindC_Inr_D returnC_Inr_D)
  then show ?thesis
    by (auto dest: Dropout_init_D)
qed

lemma MLP_init_D:
  assumes "MLP_init i hf outf q g = (Inr m, g')"
  shows "drop_p (mlp_drop m) = q \<and> training (mlp_drop m)"
proof -
  from assms obtain l1 l2 d1 g1 g2 where
    "Dropout_init q g1 = (Inr d1, g2)" "m = \<lparr>fc1 = l1, act = GELU, fc2 = l2, mlp_drop = d1\<rparr>"
    unfolding MLP_init_def Let_def
    by (auto dest!: bindC_Inr_D returnC_Inr_D)
  then show ?thesis
    by (auto dest: Dropout_init_D)
qed

lemma Block_init_D:
  assumes "Block_init d h r qb q ap pp g = (Inr b, g')"
  shows "drop_p (mlp_drop (mlp b)) = 0 \<and> training (mlp_drop (mlp b))
         \<and> drop_p (attn_drop (attn b)) = ap \<and> drop_p (proj_drop (attn b)) = pp"
proof -
  from assms obtain a g1 m g2 where
    "Attention_init d h qb ap pp g = (Inr a, g1)"
    "MLP_init (int d) (Some (py_int (real d * r))) (Some (int d)) 0 g1 = (Inr m, g2)"
    "b = \<lparr>norm1 = LayerNorm_init d, attn = a, norm2 = LayerNorm_init d, mlp = m\<rparr>"
    unfolding Block_init_def Let_def
    by (auto dest!: bindC_Inr_D returnC_Inr_D)
  then show ?thesis
    by (auto dest: Attention_init_D MLP_init_D)
qed

lemma make_blocks_D:
  assumes "\<And>g b g'. mk g = (Inr b, g') \<Longrightarrow> P b"
  shows "make_blocks n mk g = (Inr bs, g') \<Longrightarrow> length bs = n \<and> list_all P bs"
proof (induction n arbitrary: g bs g')
  case 0
  then show ?case by (simp add: returnC_def)
next
  case (Suc n)
  from Suc.prems obtain b g1 bs' g2 where
    "mk g = (Inr b, g1)" "make_blocks n mk g1 = (Inr bs', g2)" "bs = b # bs'"
    by (auto dest!: bindC_Inr_D returnC_Inr_D)
  then show ?case using assms Suc.IH by auto
qed

lemma VisionTransformer_init_D:
  assumes "VisionTransformer_init c g = (Inr m, g')"
  shows "drop_p (pos_drop m) = arg_p c \<and> length (blocks m) = arg_depth c
         \<and> list_all (\<lambda>b. drop_p (mlp_drop (mlp b)) = 0 \<and> training (mlp_drop (mlp b))
                          \<and> drop_p (attn_drop (attn b)) = arg_attn_p c
                          \<and> drop_p (proj_drop (attn b)) = arg_proj_p c) (blocks m)"
proof -
  from assms obtain pd g1 g2 bs g3 g4 where
    "Dropout_init (arg_p c) g1 = (Inr pd, g2)"
    "make_blocks (arg_depth c)
       (Block_init (arg_embed_dim c) (arg_n_heads c) (arg_mlp_ratio c) (arg_qkv_bias c)
          (arg_p c) (arg_attn_p c) (arg_proj_p c)) g3 = (Inr bs, g4)"
    "pos_drop m = pd" "blocks m = bs"
    unfolding VisionTransformer_init_def
    by (auto dest!: bindC_Inr_D returnC_Inr_D)
  note 1 = this
  have "length bs = arg_depth c
        \<and> list_all (\<lambda>b. drop_p (mlp_drop (mlp b)) = 0 \<and> training (mlp_drop (mlp b))
                          \<and> drop_p (attn_drop (attn b)) = arg_attn_p c
                          \<and> drop_p (proj_drop (attn b)) = arg_proj_p c) bs"
    by (rule make_blocks_D [OF _ 1(2)]) (rule Block_init_D)
  then show ?thesis
    using 1 Dropout_init_D by blast
qed

lemma Dropout_forward_p0: "drop_p d = 0 \<Longrightarrow> Dropout_forward d x = returnC x"
  by (simp add: Dropout_forward_def)

lemma liftC_Inr [simp]: "liftC (Inr v) = returnC v"
  by (simp add: liftC_def returnC_def)

lemma liftC_Inl [simp]: "liftC (Inl e) = raiseC e"
  by (simp add: liftC_def raiseC_def)

lemma bindC_returnC [simp]: "bindC (returnC v) f = f v"
  by (simp add: bindC_def returnC_def)

lemma bindC_raiseC [simp]: "bindC (raiseC e) f = raiseC e"
  by (simp add: bindC_def raiseC_def)

lemma MLP_forward_p0:
  assumes "drop_p (mlp_drop m) = 0"
  shows "MLP_forward m x =
           liftC (bindE (Linear_forward (fc1 m) x) (\<lambda>x1. Linear_forward (fc2 m) (apply_act (act m) x1)))"
proof (cases "Linear_forward (fc1 m) x")
  case (Inl e)
  then show ?thesis by (simp add: MLP_forward_def)
next
  case (Inr x1)
  then show ?thesis
    by (cases "Linear_forward (fc2 m) (apply_act (act m) x1)")
       (simp_all add: MLP_forward_def Dropout_forward_p0 [OF assms])
qed

section \<open>The tensor operations never raise ValueError\<close>

lemma norm_dim_not_VE: "norm_dim r d \<noteq> Inl ValueError"
  by (simp add: norm_dim_def)

lemma bindE_not_VE:
  "r \<noteq> Inl ValueError \<Longrightarrow> (\<And>y. f y \<noteq> Inl ValueError) \<Longrightarrow> bindE r f \<noteq> Inl ValueError"
  by (cases r) simp_all

lemma Linear_forward_not_VE: "Linear_forward l x \<noteq> Inl ValueError"
  by (simp add: Linear_forward_def split: list.splits)

lemma reshape_not_VE: "reshape shp t \<noteq> Inl ValueError"
  by (simp add: reshape_def)

lemma permute_not_VE: "permute dims t \<noteq> Inl ValueError"
  by (simp add: permute_def)

lemma select_not_VE: "select d i t \<noteq> Inl ValueError"
  by (simp add: select_def)

lemma transpose_t_not_VE: "transpose_t d0 d1 t \<noteq> Inl ValueError"
  using norm_dim_not_VE by (auto simp add: transpose_t_def split: sum.splits)

lemma matmul_not_VE: "matmul a b \<noteq> Inl ValueError"
  by (simp add: matmul_def Let_def)

lemma softmax_not_VE: "softmax d t \<noteq> Inl ValueError"
  using norm_dim_not_VE by (auto simp add: softmax_def split: sum.splits)

lemma Attention_qkv_not_VE: "Attention_qkv a B T x \<noteq> Inl ValueError"
  unfolding Attention_qkv_def
  by (intro bindE_not_VE Linear_forward_not_VE reshape_not_VE permute_not_VE select_not_VE) simp

lemma Attention_attn_not_VE: "Attention_attn a q k \<noteq> Inl ValueError"
  unfolding Attention_attn_def Attention_dp_def
  by (intro bindE_not_VE transpose_t_not_VE matmul_not_VE softmax_not_VE) simp

lemma never_raises_bindC:
  "never_raises m e \<Longrightarrow> (\<And>y. never_raises (f y) e) \<Longrightarrow> never_raises (bindC m f) e"
  unfolding never_raises_def bindC_def
  by (auto split: prod.splits sum.splits) (metis fst_conv)+

lemma never_raises_liftC: "r \<noteq> Inl e \<Longrightarrow> never_raises (liftC r) e"
  by (simp add: never_raises_def liftC_def)

lemma Dropout_forward_never_raises: "never_raises (Dropout_forward d x) e"
  by (simp add: never_raises_def Dropout_forward_def returnC_def draw_def)

lemma Attention_out_not_VE: "never_raises (Attention_out a B T d w v) ValueError"
  unfolding Attention_out_def
  by (intro never_raises_bindC never_raises_liftC matmul_not_VE transpose_t_not_VE
        reshape_not_VE Linear_forward_not_VE Dropout_forward_never_raises)

lemma Attention_forward_matching_dim:
  assumes "shape x = [B, T, dim a]"
  shows "never_raises (Attention_forward a x) ValueError"
proof -
  have "never_raises (bindC (liftC (Attention_qkv a B T x)) (\<lambda>(q, k, v).
               bindC (liftC (Attention_attn a q k)) (\<lambda>attn1.
               bindC (Dropout_forward (attn_drop a) attn1) (\<lambda>attn2.
               Attention_out a B T (dim a) attn2 v)))) ValueError"
    by (intro never_raises_bindC never_raises_liftC Attention_qkv_not_VE)
       (auto intro!: never_raises_bindC never_raises_liftC Attention_attn_not_VE
          Dropout_forward_never_raises Attention_out_not_VE)
  then show ?thesis
    by (simp add: Attention_forward_def assms)
qed

lemma Linear_forward_wrong_dim:
  "Linear_ok n_in n_out l \<Longrightarrow> shape x = pre @ [d] \<Longrightarrow> d \<noteq> n_in \<Longrightarrow>
   Linear_forward l x = Inl RuntimeError"
  by (simp add: Linear_forward_def Linear_ok_def)

section \<open>Heads that do not divide the dimension\<close>

lemma raiseC_apply: "raiseC e g = (Inl e, g)"
  by (simp add: raiseC_def)

lemma returnC_apply: "returnC v g = (Inr v, g)"
  by (simp add: returnC_def)

lemma reshape_mismatch: "numel shp \<noteq> numel (shape t) \<Longrightarrow> reshape shp t = Inl RuntimeError"
  by (simp add: reshape_def)

lemma not_dvd_mult_div_less:
  assumes "0 < (h::nat)" and "\<not> h dvd d"
  shows "h * (d div h) < d"
proof -
  have "d mod h \<noteq> 0" using assms(2) by (simp add: dvd_eq_mod_eq_0)
  moreover have "h * (d div h) + d mod h = d" by simp
  ultimately show ?thesis by linarith
qed

lemma Attention_forward_indivisible:
  assumes ok: "Attention_ok d h a" and h: "0 < h" and nd: "\<not> h dvd d"
    and x: "shape x = [B, T, d]" and B: "0 < B" and T: "0 < T"
  shows "Attention_forward a x g = (Inl RuntimeError, g)"
proof -
  have lin: "Linear_ok d (d * 3) (qkv a)" and nh: "n_heads a = h" and hd: "head_dim a = d div h"
    and da: "dim a = d"
    using ok by (simp_all add: Attention_ok_def)
  from Linear_forward_okE [OF lin, of x "[B, T]"] x
  obtain qkv1 where 1: "Linear_forward (qkv a) x = Inr qkv1" and s1: "shape qkv1 = [B, T, d * 3]"
    by (auto dest: okE_D)
  have "h * (d div h) * 3 < d * 3"
    using not_dvd_mult_div_less [OF h nd] by simp
  then have "T * (h * (d div h) * 3) < T * (d * 3)"
    using T by simp
  then have "B * (T * (h * (d div h) * 3)) < B * (T * (d * 3))"
    using B by simp
  then have "numel [B, T, 3, h, d div h] \<noteq> numel (shape qkv1)"
    by (simp add: numel_def s1 mult.assoc mult.left_commute)
  then have 2: "reshape [B, T, 3, n_heads a, head_dim a] qkv1 = Inl RuntimeError"
    by (simp add: reshape_mismatch nh hd)
  have "Attention_qkv a B T x = Inl RuntimeError"
    by (simp add: Attention_qkv_def 1 2)
  then show ?thesis
    by (simp add: Attention_forward_def x da raiseC_apply)
qed


lemma Attention_init_zero_head_dim:
  "0 < h \<Longrightarrow> d < h \<Longrightarrow> Attention_init d h qb ap pp g = (Inl ZeroDivisionError, g)"
  by (simp add: Attention_init_def raiseC_apply)

section \<open>A patch size that does not divide the image size\<close>

lemma unravel_valid: "n < numel shp \<Longrightarrow> valid_index shp (unravel shp n)"
proof (induction shp arbitrary: n)
  case Nil
  then show ?case by simp
next
  case (Cons d ds)
  have pos: "0 < numel ds" using Cons(2) by (cases "numel ds = 0") (simp_all add: numel_def)
  have "n < d * numel ds" using Cons(2) by (simp add: numel_def)
  then have "n div numel ds < d" using pos by (simp add: less_mult_imp_div_less mult.commute)
  moreover have "valid_index ds (unravel ds (n mod numel ds))" using Cons(1) pos by simp
  ultimately show ?case by simp
qed

lemma shape_full [simp]: "shape (full shp v) = shp"
  by (simp add: full_def)

lemma tabulate_cong:
  assumes "\<And>idx. valid_index shp idx \<Longrightarrow> f idx = g idx"
  shows "tabulate shp f = tabulate shp g"
  unfolding tabulate_def using assms by (simp add: unravel_valid)

lemma Conv2d_forward_small_image:
  assumes "Conv2d_ok C E p c" and "S < p" and "shape x = [B, C, S, S]"
  shows "Conv2d_forward c x = Inl RuntimeError"
  using assms by (simp add: Conv2d_forward_def Conv2d_ok_def)

lemma PatchEmbedding_forward_small_image:
  assumes "Conv2d_ok C E p (projection pe)" and "S < p" and "shape x = [B, C, S, S]"
  shows "PatchEmbedding_forward pe x = Inl RuntimeError"
  by (simp add: PatchEmbedding_forward_def Conv2d_forward_small_image [OF assms])

lemma VisionTransformer_forward_small_image:
  assumes "VisionTransformer_ok c m" and "arg_img_size c < arg_patch_size c"
    and "shape x = [B, arg_in_channels c, arg_img_size c, arg_img_size c]"
  shows "VisionTransformer_forward m x g = (Inl RuntimeError, g)"
proof -
  have "Conv2d_ok (arg_in_channels c) (arg_embed_dim c) (arg_patch_size c) (projection (patch_embed m))"
    using assms(1) by (simp add: VisionTransformer_ok_def)
  from PatchEmbedding_forward_small_image [OF this assms(2,3)]
  show ?thesis
    by (simp add: VisionTransformer_forward_def assms(3) raiseC_apply)
qed

lemma sum_list_map_cong:
  "(\<And>x. x \<in> set xs \<Longrightarrow> f x = g x) \<Longrightarrow> sum_list (map f xs) = sum_list (map g xs)"
  by (induction xs) simp_all

lemma Conv2d_forward_truncates:
  assumes ok: "Conv2d_ok C E p c" and p: "0 < p" "p \<le> S"
    and x: "shape x = [B, C, S, S]" and x': "shape x' = [B, C, S, S]"
    and agree: "\<And>b ch i j. b < B \<Longrightarrow> ch < C \<Longrightarrow> i < S div p * p \<Longrightarrow> j < S div p * p \<Longrightarrow>
                  elem x [b, ch, i, j] = elem x' [b, ch, i, j]"
    and pos: "0 < C" "0 < E"
  shows "Conv2d_forward c x = Conv2d_forward c x'"
proof -
  have lt: "i * p + u < S div p * p" if "i < S div p" "u < p" for i u
  proof -
    have "i * p + u < i * p + p" using that(2) by simp
    also have "\<dots> = Suc i * p" by simp
    also have "\<dots> \<le> S div p * p" using that(1) by (intro mult_le_mono1) simp
    finally show ?thesis .
  qed
  show ?thesis
    unfolding Conv2d_forward_eq [OF ok p x pos] Conv2d_forward_eq [OF ok p x' pos]
  proof (rule arg_cong [where f = Inr], rule tabulate_cong)
    fix idx
    assume "valid_index [B, E, S div p, S div p] idx"
    then obtain b oc i j where idx: "idx = [b, oc, i, j]" and b: "b < B" and i: "i < S div p"
      and j: "j < S div p"
      by (auto simp add: valid_index_def list_all2_Cons2)
    show "elem (conv_bias c) [idx ! 1]
                         + sum_list (map (\<lambda>ch.
                             sum_list (map (\<lambda>u.
                               sum_list (map (\<lambda>v.
                                 elem (conv_weight c) [idx ! 1, ch, u, v]
                                 * elem x [idx ! 0, ch, idx ! 2 * p + u, idx ! 3 * p + v])
                               [0..<p]))
                             [0..<p]))
                           [0..<C])
          = elem (conv_bias c) [idx ! 1]
                         + sum_list (map (\<lambda>ch.
                             sum_list (map (\<lambda>u.
                               sum_list (map (\<lambda>v.
                                 elem (conv_weight c) [idx ! 1, ch, u, v]
                                 * elem x' [idx ! 0, ch, idx ! 2 * p + u, idx ! 3 * p + v])
                               [0..<p]))
                             [0..<p]))
                           [0..<C])"
      unfolding idx
      by (intro arg_cong2 [where f = "(+)"] refl sum_list_map_cong arg_cong2 [where f = "(*)"])
         (simp add: agree b lt i j eval_nat_numeral)
  qed
qed

lemma PatchEmbedding_forward_truncates:
  assumes "Conv2d_ok C E p (projection pe)" and "0 < p" "p \<le> S"
    and "shape x = [B, C, S, S]" and "shape x' = [B, C, S, S]"
    and "\<And>b ch i j. b < B \<Longrightarrow> ch < C \<Longrightarrow> i < S div p * p \<Longrightarrow> j < S div p * p \<Longrightarrow>
                  elem x [b, ch, i, j] = elem x' [b, ch, i, j]"
    and "0 < C" and "0 < E"
  shows "PatchEmbedding_forward pe x = PatchEmbedding_forward pe x'"
  using Conv2d_forward_truncates [OF assms] by (simp add: PatchEmbedding_forward_def)

section \<open>Inference mode draws nothing\<close>

lemma stateless_liftC [simp]: "stateless (liftC r)"
  by (auto simp add: stateless_def liftC_def)

lemma stateless_returnC [simp]: "stateless (returnC v)"
  by (auto simp add: stateless_def returnC_def)

lemma stateless_raiseC [simp]: "stateless (raiseC e)"
  by (auto simp add: stateless_def raiseC_def)

lemma stateless_bindC:
  assumes "stateless m" and "\<And>y. stateless (f y)"
  shows "stateless (bindC m f)"
proof -
  from assms(1) obtain r where m: "\<And>g. m g = (r, g)" by (auto simp add: stateless_def)
  show ?thesis
  proof (cases r)
    case (Inl e)
    then show ?thesis by (auto simp add: stateless_def bindC_def m)
  next
    case (Inr y)
    from assms(2) [of y] obtain r' where "\<And>g. f y g = (r', g)" by (auto simp add: stateless_def)
    then show ?thesis using Inr by (auto simp add: stateless_def bindC_def m)
  qed
qed

lemma stateless_Dropout_eval: "\<not> training d \<Longrightarrow> stateless (Dropout_forward d x)"
  by (simp add: Dropout_forward_def)

lemma stateless_Attention_eval: "stateless (Attention_forward (Attention_train False a) x)"
  unfolding Attention_forward_def Attention_out_def
  by (auto split: list.splits
        intro!: stateless_bindC stateless_Dropout_eval simp add: Attention_train_def)

lemma stateless_MLP_eval: "stateless (MLP_forward (MLP_train False m) x)"
  unfolding MLP_forward_def
  by (auto intro!: stateless_bindC stateless_Dropout_eval simp add: MLP_train_def)

lemma stateless_Block_eval: "stateless (Block_forward (Block_train False b) x)"
  unfolding Block_forward_def
  by (auto intro!: stateless_bindC simp add: Block_train_def stateless_Attention_eval stateless_MLP_eval)

lemma stateless_run_blocks_eval: "stateless (run_blocks (map (Block_train False) bs) x)"
  by (induction bs arbitrary: x) (auto intro!: stateless_bindC stateless_Block_eval)

lemma stateless_VisionTransformer_eval:
  "stateless (VisionTransformer_forward (VisionTransformer_train False m) x)"
  unfolding VisionTransformer_forward_def
  by (auto split: list.splits
        intro!: stateless_bindC stateless_Dropout_eval stateless_run_blocks_eval
        simp add: VisionTransformer_train_def)

section \<open>The forward pass as a pipeline\<close>

lemma bindC_assoc: "bindC (bindC m f) k = bindC m (\<lambda>y. bindC (f y) k)"
  by (auto simp add: bindC_def fun_eq_iff split: prod.splits sum.splits)

lemma bindC_returnC_right [simp]: "bindC m returnC = m"
  by (auto simp add: bindC_def returnC_def fun_eq_iff split: prod.splits sum.splits)

lemma bindC_liftC_bindE:
  "bindC (liftC (bindE r f)) k = bindC (liftC r) (\<lambda>y. bindC (liftC (f y)) k)"
  by (cases r) simp_all

lemma foldl_blocks:
  "foldl (\<lambda>k b. then_stage k (Block_forward b)) k0 bs x = bindC (k0 x) (run_blocks bs)"
proof (induction bs arbitrary: k0)
  case Nil
  have "run_blocks [] = returnC" by (simp add: fun_eq_iff)
  then show ?case by simp
next
  case (Cons b bs)
  have "foldl (\<lambda>k b. then_stage k (Block_forward b)) k0 (b # bs) x
        = foldl (\<lambda>k b. then_stage k (Block_forward b)) (then_stage k0 (Block_forward b)) bs x"
    by simp
  also have "\<dots> = bindC (then_stage k0 (Block_forward b) x) (run_blocks bs)"
    by (rule Cons.IH)
  also have "\<dots> = bindC (k0 x) (\<lambda>y. bindC (Block_forward b y) (run_blocks bs))"
    by (simp add: then_stage_def bindC_assoc)
  also have "(\<lambda>y. bindC (Block_forward b y) (run_blocks bs)) = run_blocks (b # bs)"
    by (simp add: fun_eq_iff)
  finally show ?case .
qed

lemma blocks_stage_eq: "blocks_stage m x = run_blocks (blocks m) x"
  by (simp add: blocks_stage_def foldl_blocks)

lemma VisionTransformer_forward_pipeline:
  assumes "shape x = n # rest"
  shows "VisionTransformer_forward m x = vit_pipeline m n x"
proof -
  have b: "blocks_stage m = run_blocks (blocks m)"
    by (simp add: fun_eq_iff blocks_stage_eq)
  show ?thesis
    unfolding VisionTransformer_forward_def vit_pipeline_def
    by (simp add: assms then_stage_def patch_embedding_stage_def prepend_cls_stage_def
          prepend_cls_def add_pos_stage_def dropout_stage_def b norm_stage_def
          select_cls_stage_def head_stage_def bindC_assoc bindC_liftC_bindE)
qed


lemma broadcast_index_valid:
  "valid_index shp idx \<Longrightarrow> broadcast_index shp idx = idx"
  unfolding valid_index_def broadcast_index_def
proof (induction idx shp rule: list_all2_induct)
  case Nil
  then show ?case by simp
next
  case (Cons i js d ds)
  then have "length js = length ds" by (simp add: list_all2_lengthD)
  then show ?case using Cons by auto
qed

lemma broadcast_index_batch:
  "t < T \<Longrightarrow> e < E \<Longrightarrow> broadcast_index [Suc 0, T, E] [b, t, e] = [0, t, e]"
  by (auto simp add: broadcast_index_def)

lemma prepend_cls_values:
  assumes cls: "shape cls = [1, 1, E]" and x1: "shape x1 = [B, n, E]"
  shows "okE (prepend_cls cls B x1)
           (\<lambda>x2. shape x2 = [B, n + 1, E]
                 \<and> (\<forall>b e. b < B \<and> e < E \<longrightarrow> elem x2 [b, 0, e] = elem cls [0, 0, e])
                 \<and> (\<forall>b t e. b < B \<and> t < n \<and> e < E \<longrightarrow> elem x2 [b, t + 1, e] = elem x1 [b, t, e]))"
proof -
  define c where "c = tabulate [B, 1, E] (\<lambda>idx. elem cls (broadcast_index [1, 1, E] idx))"
  define x2 where "x2 = tabulate [B, n + 1, E]
                      (\<lambda>idx. if idx ! 1 < 1 then elem c idx else elem x1 (idx[1 := idx ! 1 - 1]))"
  have 1: "expand [int B, - 1, - 1] cls = Inr c"
    unfolding c_def by (rule expand_cls [OF cls])
  have sc: "shape c = [B, 1, E]" by (simp add: c_def)
  have 2: "cat c x1 1 = Inr x2"
    unfolding x2_def by (rule cat_tokens [OF sc x1])
  have r: "prepend_cls cls B x1 = Inr x2"
    by (simp only: prepend_cls_def 1 2 bindE_Inr)
  have a: "elem x2 [b, 0, e] = elem cls [0, 0, e]" if "b < B" "e < E" for b e
  proof -
    have "elem x2 [b, 0, e] = elem c [b, 0, e]"
      unfolding x2_def using that by (subst elem_tabulate) simp_all
    also have "\<dots> = elem cls (broadcast_index [1, 1, E] [b, 0, e])"
      unfolding c_def using that by (subst elem_tabulate) simp_all
    also have "\<dots> = elem cls [0, 0, e]"
      using that by (simp add: broadcast_index_batch)
    finally show ?thesis .
  qed
  have b: "elem x2 [b, t + 1, e] = elem x1 [b, t, e]" if "b < B" "t < n" "e < E" for b t e
    unfolding x2_def using that by (subst elem_tabulate) simp_all
  show ?thesis
    using a b by (simp add: r x2_def)
qed

lemma add_pos_values:
  assumes x2: "shape x2 = [B, T, E]" and pos: "shape pos = [1, T, E]"
  shows "okE (add_t x2 pos)
           (\<lambda>x3. shape x3 = [B, T, E]
                 \<and> (\<forall>b t e. b < B \<and> t < T \<and> e < E \<longrightarrow>
                      elem x3 [b, t, e] = elem x2 [b, t, e] + elem pos [0, t, e]))"
proof -
  have "elem (tabulate [B, T, E]
                (\<lambda>idx. elem x2 (broadcast_index [B, T, E] idx)
                        + elem pos (broadcast_index [1, T, E] idx))) [b, t, e]
        = elem x2 [b, t, e] + elem pos [0, t, e]" if "b < B" "t < T" "e < E" for b t e
    using that
    by (subst elem_tabulate) (simp_all add: broadcast_index_valid broadcast_index_batch)
  then show ?thesis
    by (simp add: add_pos [OF x2 pos])
qed

section \<open>The claims\<close>

text \<open>
  C1. For every batch size \<open>B\<close> and every valid configuration, the model built by the
  constructor, in training or in inference mode, maps every input of shape
  \<open>(B, in_channels, image_size, image_size)\<close> to an output of shape \<open>(B, n_classes)\<close>,
  whatever the state of the random generator: construction succeeds, and so does the
  forward pass.
\<close>

theorem VisionTransformer_forward_shape:
  assumes "valid_args c"
    and "shape x = [B, arg_in_channels c, arg_img_size c, arg_img_size c]"
  shows "okC (VisionTransformer_init c)
           (\<lambda>m. okC (VisionTransformer_forward (VisionTransformer_train mode m) x)
                   (\<lambda>y. shape y = [B, arg_n_classes c]))"
proof -
  have r: "args_in_range c" and pd: "arg_patch_size c dvd arg_img_size c"
    and hd: "arg_n_heads c dvd arg_embed_dim c"
    using assms(1) by (simp_all add: valid_args_def)
  have p: "0 < arg_patch_size c" and ch: "0 < arg_in_channels c" "0 < arg_embed_dim c"
    using r by (simp_all add: args_in_range_def)
  show ?thesis
  proof (rule okC_weaken [OF VisionTransformer_init_ok [OF r valid_args_le(2) [OF assms(1)]]])
    fix m
    assume "VisionTransformer_ok c m"
    then have "VisionTransformer_ok c (VisionTransformer_train mode m)" by simp
    then show "okC (VisionTransformer_forward (VisionTransformer_train mode m) x)
                 (\<lambda>y. shape y = [B, arg_n_classes c])"
      by (rule VisionTransformer_forward_okC [OF _ p valid_args_le(1) [OF assms(1)] hd assms(2) ch])
  qed
qed

text \<open>
  The two scenarios of the specification: the default configuration on one image of
  \<open>224 \<times> 224\<close> pixels in training mode, and the small configuration on a batch of four
  images of \<open>32 \<times> 32\<close> pixels in inference mode.
\<close>

theorem VisionTransformer_forward_shape_witness:
  "okC (VisionTransformer_init
          \<lparr>arg_img_size = 224, arg_patch_size = 16, arg_in_channels = 3, arg_n_classes = 1000,
           arg_embed_dim = 768, arg_depth = 12, arg_n_heads = 12, arg_mlp_ratio = 4,
           arg_qkv_bias = True, arg_p = 0, arg_attn_p = 0, arg_proj_p = 0\<rparr>)
     (\<lambda>m. okC (VisionTransformer_forward (VisionTransformer_train True m) (full [1, 3, 224, 224] 0))
             (\<lambda>y. shape y = [1, 1000]))
   \<and> okC (VisionTransformer_init
          \<lparr>arg_img_size = 32, arg_patch_size = 8, arg_in_channels = 3, arg_n_classes = 10,
           arg_embed_dim = 64, arg_depth = 2, arg_n_heads = 4, arg_mlp_ratio = 4,
           arg_qkv_bias = True, arg_p = 0, arg_attn_p = 0, arg_proj_p = 0\<rparr>)
     (\<lambda>m. okC (VisionTransformer_forward (VisionTransformer_train False m) (full [4, 3, 32, 32] 0))
             (\<lambda>y. shape y = [4, 10]))"
  using VisionTransformer_forward_shape
    [of "\<lparr>arg_img_size = 224, arg_patch_size = 16, arg_in_channels = 3, arg_n_classes = 1000,
           arg_embed_dim = 768, arg_depth = 12, arg_n_heads = 12, arg_mlp_ratio = 4,
           arg_qkv_bias = True, arg_p = 0, arg_attn_p = 0, arg_proj_p = 0\<rparr>"
        "full [1, 3, 224, 224] 0" 1 True]
    VisionTransformer_forward_shape
    [of "\<lparr>arg_img_size = 32, arg_patch_size = 8, arg_in_channels = 3, arg_n_classes = 10,
           arg_embed_dim = 64, arg_depth = 2, arg_n_heads = 4, arg_mlp_ratio = 4,
           arg_qkv_bias = True, arg_p = 0, arg_attn_p = 0, arg_proj_p = 0\<rparr>"
        "full [4, 3, 32, 32] 0" 4 False]
  by (simp add: valid_args_def args_in_range_def)

text \<open>
  C2. On a rank-3 input, \<open>Attention.forward\<close> raises \<open>ValueError\<close> exactly when the last
  dimension of the input differs from the configured one. It then raises at once: the
  generator is untouched, whatever the parameters of the module are, and the error is not
  the \<open>RuntimeError\<close> that the Q/K/V projection of a well-formed module would raise on such
  an input, had it been applied.
\<close>

theorem Attention_forward_dim_check:
  assumes "shape x = [B, T, d]"
  shows "(fst (Attention_forward a x g) = Inl ValueError \<longleftrightarrow> d \<noteq> dim a)
       \<and> (d \<noteq> dim a \<longrightarrow> Attention_forward a x g = (Inl ValueError, g))
       \<and> (d \<noteq> dim a \<and> Linear_ok (dim a) (dim a * 3) (qkv a)
            \<longrightarrow> Linear_forward (qkv a) x = Inl RuntimeError)"
proof (intro conjI impI)
  show "fst (Attention_forward a x g) = Inl ValueError \<longleftrightarrow> d \<noteq> dim a"
  proof (cases "d = dim a")
    case True
    then show ?thesis
      using Attention_forward_matching_dim [of x B T a] assms
      by (simp add: never_raises_def)
  next
    case False
    then show ?thesis
      by (simp add: Attention_forward_def assms raiseC_def)
  qed
  show "Attention_forward a x g = (Inl ValueError, g)" if "d \<noteq> dim a"
    using that by (simp add: Attention_forward_def assms raiseC_def)
  show "Linear_forward (qkv a) x = Inl RuntimeError"
    if "d \<noteq> dim a \<and> Linear_ok (dim a) (dim a * 3) (qkv a)"
    using that Linear_forward_wrong_dim [of "dim a" "dim a * 3" "qkv a" x "[B, T]" d] assms
    by simp
qed

theorem Attention_forward_dim_check_witness:
  "fst (Attention_forward
          \<lparr>n_heads = 4, dim = 64, head_dim = 16, scale = 1 / 4,
           qkv = \<lparr>weight = full [192, 64] 0, bias = Some (full [192] 0)\<rparr>,
           attn_drop = \<lparr>drop_p = 0, training = True\<rparr>,
           proj = \<lparr>weight = full [64, 64] 0, bias = Some (full [64] 0)\<rparr>,
           proj_drop = \<lparr>drop_p = 0, training = True\<rparr>\<rparr>
          (full [4, 17, 32] 0) (\<lambda>n. 0)) = Inl ValueError
   \<and> Attention_forward
          \<lparr>n_heads = 4, dim = 64, head_dim = 16, scale = 1 / 4,
           qkv = \<lparr>weight = full [192, 64] 0, bias = Some (full [192] 0)\<rparr>,
           attn_drop = \<lparr>drop_p = 0, training = True\<rparr>,
           proj = \<lparr>weight = full [64, 64] 0, bias = Some (full [64] 0)\<rparr>,
           proj_drop = \<lparr>drop_p = 0, training = True\<rparr>\<rparr>
          (full [4, 17, 32] 0) (\<lambda>n. 0) = (Inl ValueError, \<lambda>n. 0)
   \<and> Linear_forward \<lparr>weight = full [192, 64] 0, bias = Some (full [192] 0)\<rparr> (full [4, 17, 32] 0)
       = Inl RuntimeError
   \<and> fst (Attention_forward
          \<lparr>n_heads = 4, dim = 64, head_dim = 16, scale = 1 / 4,
           qkv = \<lparr>weight = full [192, 64] 0, bias = Some (full [192] 0)\<rparr>,
           attn_drop = \<lparr>drop_p = 0, training = True\<rparr>,
           proj = \<lparr>weight = full [64, 64] 0, bias = Some (full [64] 0)\<rparr>,
           proj_drop = \<lparr>drop_p = 0, training = True\<rparr>\<rparr>
          (full [4, 17, 64] 0) (\<lambda>n. 0)) \<noteq> Inl ValueError"
proof -
  let ?a = "\<lparr>n_heads = 4, dim = 64, head_dim = 16, scale = 1 / 4,
           qkv = \<lparr>weight = full [192, 64] 0, bias = Some (full [192] 0)\<rparr>,
           attn_drop = \<lparr>drop_p = 0, training = True\<rparr>,
           proj = \<lparr>weight = full [64, 64] 0, bias = Some (full [64] 0)\<rparr>,
           proj_drop = \<lparr>drop_p = 0, training = True\<rparr>\<rparr>"
  have 1: "shape (full [4, 17, 32] 0) = [4, 17, 32]" and 2: "shape (full [4, 17, 64] 0) = [4, 17, 64]"
    by (simp_all add: full_def)
  have ok: "Linear_ok 64 192 \<lparr>weight = full [192, 64] 0, bias = Some (full [192] 0)\<rparr>"
    by (simp add: Linear_ok_def full_def)
  show ?thesis
    using Attention_forward_dim_check [OF 1, of ?a "\<lambda>n. 0"]
      Attention_forward_dim_check [OF 2, of ?a "\<lambda>n. 0"] ok
    by simp
qed

text \<open>
  C3 as the specification states it fails: for \<open>embed_dim = 10\<close> and \<open>n_heads = 3\<close> the
  constructors of the attention module and of the model return normally, with
  \<open>head_dim = 3\<close>.
\<close>

theorem indivisible_heads_counterexample:
  "\<not> (3::nat) dvd 10
   \<and> okC (Attention_init 10 3 True 0 0) (\<lambda>a. head_dim a = 3)
   \<and> okC (VisionTransformer_init
            \<lparr>arg_img_size = 32, arg_patch_size = 8, arg_in_channels = 3, arg_n_classes = 10,
             arg_embed_dim = 10, arg_depth = 2, arg_n_heads = 3, arg_mlp_ratio = 4,
             arg_qkv_bias = True, arg_p = 0, arg_attn_p = 0, arg_proj_p = 0\<rparr>)
       (\<lambda>m. length (blocks m) = 2 \<and> list_all (\<lambda>b. head_dim (attn b) = 3) (blocks m))"
proof (intro conjI)
  show "\<not> (3::nat) dvd 10" by simp
  show "okC (Attention_init 10 3 True 0 0) (\<lambda>a. head_dim a = 3)"
    by (rule okC_weaken [OF Attention_init_okC]) (simp_all add: Attention_ok_def)
  show "okC (VisionTransformer_init
            \<lparr>arg_img_size = 32, arg_patch_size = 8, arg_in_channels = 3, arg_n_classes = 10,
             arg_embed_dim = 10, arg_depth = 2, arg_n_heads = 3, arg_mlp_ratio = 4,
             arg_qkv_bias = True, arg_p = 0, arg_attn_p = 0, arg_proj_p = 0\<rparr>)
       (\<lambda>m. length (blocks m) = 2 \<and> list_all (\<lambda>b. head_dim (attn b) = 3) (blocks m))"
    by (rule okC_weaken [OF VisionTransformer_init_okC])
       (auto simp add: args_in_range_def VisionTransformer_ok_def Block_ok_def Attention_ok_def
          elim: list_all_weaken)
qed

text \<open>
  C3, amended. With \<open>embed_dim\<close> not divisible by \<open>n_heads\<close> and
  \<open>0 < n_heads \<le> embed_dim\<close>, the constructor of the attention module, and that of the model
  when its other arguments are in range, return normally; \<open>head_dim\<close> is the rounded-down
  quotient. The mismatch shows only in \<open>forward\<close>: on every input of shape
  \<open>(B, T, embed_dim)\<close> with \<open>B, T > 0\<close> the reshape into heads raises \<open>RuntimeError\<close>.
  With \<open>n_heads > embed_dim\<close> the constructor raises \<open>ZeroDivisionError\<close>, from the negative
  power of \<open>head_dim = 0\<close>.
\<close>

theorem indivisible_heads_no_validation:
  assumes "0 < h" and "\<not> h dvd d"
    and "0 \<le> ap" and "ap \<le> 1" and "0 \<le> pp" and "pp \<le> 1"
    and "shape x = [B, T, d]" and "0 < B" and "0 < T"
    and "args_in_range c" and "arg_embed_dim c = d" and "arg_n_heads c = h"
  shows "(h \<le> d \<longrightarrow>
           okC (Attention_init d h qb ap pp)
             (\<lambda>a. head_dim a = d div h
                   \<and> (\<forall>mode g. Attention_forward (Attention_train mode a) x g = (Inl RuntimeError, g)))
           \<and> okC (VisionTransformer_init c)
               (\<lambda>m. length (blocks m) = arg_depth c
                     \<and> list_all (\<lambda>b. head_dim (attn b) = d div h) (blocks m)))
       \<and> (d < h \<longrightarrow> Attention_init d h qb ap pp g0 = (Inl ZeroDivisionError, g0))"
proof (intro conjI impI)
  assume hd: "h \<le> d"
  show "okC (Attention_init d h qb ap pp)
             (\<lambda>a. head_dim a = d div h
                   \<and> (\<forall>mode g. Attention_forward (Attention_train mode a) x g = (Inl RuntimeError, g)))"
  proof (rule okC_weaken [OF Attention_init_okC [OF assms(1) hd assms(3-6)]])
    fix a
    assume "Attention_ok d h a \<and> scale a = real (d div h) powr (- (1 / 2))
                 \<and> drop_p (attn_drop a) = ap \<and> drop_p (proj_drop a) = pp
                 \<and> training (attn_drop a) \<and> training (proj_drop a)"
    then have ok: "Attention_ok d h a" ..
    then have "Attention_ok d h (Attention_train mode a)" for mode by simp
    from Attention_forward_indivisible [OF this assms(1,2,7,8,9)] ok
    show "head_dim a = d div h
          \<and> (\<forall>mode g. Attention_forward (Attention_train mode a) x g = (Inl RuntimeError, g))"
      by (simp add: Attention_ok_def)
  qed
  have "arg_n_heads c \<le> arg_embed_dim c" using hd assms(11,12) by simp
  from VisionTransformer_init_okC [OF assms(10) this]
  show "okC (VisionTransformer_init c)
               (\<lambda>m. length (blocks m) = arg_depth c
                     \<and> list_all (\<lambda>b. head_dim (attn b) = d div h) (blocks m))"
    by (rule okC_weaken)
       (auto simp add: VisionTransformer_ok_def Block_ok_def Attention_ok_def assms(11,12)
          elim: list_all_weaken)
next
  assume "d < h"
  then show "Attention_init d h qb ap pp g0 = (Inl ZeroDivisionError, g0)"
    using assms(1) by (rule Attention_init_zero_head_dim [rotated])
qed


theorem indivisible_heads_no_validation_witness:
  "okC (Attention_init 10 3 True 0 0)
     (\<lambda>a. head_dim a = 3
           \<and> (\<forall>mode g. Attention_forward (Attention_train mode a) (full [2, 5, 10] 0) g
                          = (Inl RuntimeError, g)))
   \<and> okC (VisionTransformer_init
            \<lparr>arg_img_size = 32, arg_patch_size = 8, arg_in_channels = 3, arg_n_classes = 10,
             arg_embed_dim = 10, arg_depth = 2, arg_n_heads = 3, arg_mlp_ratio = 4,
             arg_qkv_bias = True, arg_p = 0, arg_attn_p = 0, arg_proj_p = 0\<rparr>)
       (\<lambda>m. length (blocks m) = 2 \<and> list_all (\<lambda>b. head_dim (attn b) = 3) (blocks m))
   \<and> Attention_init 5 12 True 0 0 (\<lambda>n. 0) = (Inl ZeroDivisionError, \<lambda>n. 0)"
  using indivisible_heads_no_validation
    [of 3 10 0 0 "full [2, 5, 10] 0" 2 5
        "\<lparr>arg_img_size = 32, arg_patch_size = 8, arg_in_channels = 3, arg_n_classes = 10,
          arg_embed_dim = 10, arg_depth = 2, arg_n_heads = 3, arg_mlp_ratio = 4,
          arg_qkv_bias = True, arg_p = 0, arg_attn_p = 0, arg_proj_p = 0\<rparr>" True "\<lambda>n. 0"]
    indivisible_heads_no_validation
    [of 12 5 0 0 "full [2, 5, 5] 0" 2 5
        "\<lparr>arg_img_size = 32, arg_patch_size = 8, arg_in_channels = 3, arg_n_classes = 10,
          arg_embed_dim = 5, arg_depth = 2, arg_n_heads = 12, arg_mlp_ratio = 4,
          arg_qkv_bias = True, arg_p = 0, arg_attn_p = 0, arg_proj_p = 0\<rparr>" True "\<lambda>n. 0"]
  by (simp add: args_in_range_def full_def)

text \<open>
  C5. A module built for dimension \<open>D\<close>, with \<open>n_heads\<close> dividing \<open>D\<close>, maps every input
  of shape \<open>(B, T, D)\<close> to an output of the same shape, in either mode: the attention, the
  MLP whose output width is its input width (the one a block builds, or one built
  without \<open>out_features\<close>), and the block. Hence every block of a model built from a valid
  configuration keeps the shape \<open>(B, n_patches + 1, embed_dim)\<close> of the token sequence, and
  so does the whole stack.
\<close>

theorem forward_preserves_shape:
  assumes "0 < h" and "h dvd d" and "0 < d" and "0 \<le> r"
    and "0 \<le> ap" and "ap \<le> 1" and "0 \<le> pp" and "pp \<le> 1" and "0 \<le> q" and "q \<le> 1"
    and "or_default hf (int d) = int nh" and "or_default outf (int d) = int d"
    and "shape x = [B, T, d]"
    and "valid_args c"
    and "shape x' = [B, (arg_img_size c div arg_patch_size c)\<^sup>2 + 1, arg_embed_dim c]"
  shows "okC (Attention_init d h qb ap pp)
           (\<lambda>a. okC (Attention_forward (Attention_train mode a) x) (\<lambda>y. shape y = [B, T, d]))
       \<and> okC (MLP_init (int d) hf outf q)
           (\<lambda>m. okC (MLP_forward (MLP_train mode m) x) (\<lambda>y. shape y = [B, T, d]))
       \<and> okC (Block_init d h r qb q' ap pp)
           (\<lambda>b. okC (Block_forward (Block_train mode b) x) (\<lambda>y. shape y = [B, T, d]))
       \<and> okC (VisionTransformer_init c)
           (\<lambda>m. list_all (\<lambda>b. okC (Block_forward b x') (\<lambda>y. shape y = shape x'))
                   (blocks (VisionTransformer_train mode m))
                 \<and> okC (run_blocks (blocks (VisionTransformer_train mode m)) x')
                     (\<lambda>y. shape y = shape x'))"
proof (intro conjI)
  have hd: "h \<le> d" using assms(2,3) by (rule dvd_imp_le)
  show "okC (Attention_init d h qb ap pp)
           (\<lambda>a. okC (Attention_forward (Attention_train mode a) x) (\<lambda>y. shape y = [B, T, d]))"
    by (rule okC_weaken [OF Attention_init_okC [OF assms(1) hd assms(5-8)]])
       (simp add: Attention_forward_okC [OF _ assms(2) assms(13)])
  show "okC (MLP_init (int d) hf outf q)
           (\<lambda>m. okC (MLP_forward (MLP_train mode m) x) (\<lambda>y. shape y = [B, T, d]))"
  proof (rule okC_weaken [OF MLP_init_okC [OF assms(11,12,9,10)]])
    fix m
    assume "MLP_ok d nh d m \<and> drop_p (mlp_drop m) = q \<and> training (mlp_drop m)"
    then have "MLP_ok d nh d (MLP_train mode m)" by simp
    from MLP_forward_okC [OF this, of x "[B, T]"] assms(13)
    show "okC (MLP_forward (MLP_train mode m) x) (\<lambda>y. shape y = [B, T, d])" by simp
  qed
  show "okC (Block_init d h r qb q' ap pp)
           (\<lambda>b. okC (Block_forward (Block_train mode b) x) (\<lambda>y. shape y = [B, T, d]))"
    by (rule okC_weaken [OF Block_init_okC [OF assms(1) hd assms(4-8)]])
       (simp add: Block_forward_okC [OF _ assms(2) assms(13)])
  have r: "args_in_range c" and hdv: "arg_n_heads c dvd arg_embed_dim c"
    using assms(14) by (simp_all add: valid_args_def)
  show "okC (VisionTransformer_init c)
           (\<lambda>m. list_all (\<lambda>b. okC (Block_forward b x') (\<lambda>y. shape y = shape x'))
                   (blocks (VisionTransformer_train mode m))
                 \<and> okC (run_blocks (blocks (VisionTransformer_train mode m)) x')
                     (\<lambda>y. shape y = shape x'))"
  proof (rule okC_weaken [OF VisionTransformer_init_ok [OF r valid_args_le(2) [OF assms(14)]]])
    fix m
    assume "VisionTransformer_ok c m"
    then have "VisionTransformer_ok c (VisionTransformer_train mode m)" by simp
    then have bs: "list_all (Block_ok (arg_embed_dim c) (arg_n_heads c))
                     (blocks (VisionTransformer_train mode m))"
      by (simp add: VisionTransformer_ok_def)
    have "list_all (\<lambda>b. okC (Block_forward b x') (\<lambda>y. shape y = shape x'))
            (blocks (VisionTransformer_train mode m))"
      by (rule list_all_weaken [OF bs]) (use Block_forward_okC [OF _ hdv assms(15)] in \<open>simp add: assms(15)\<close>)
    moreover have "okC (run_blocks (blocks (VisionTransformer_train mode m)) x')
                     (\<lambda>y. shape y = shape x')"
      using run_blocks_okC [OF bs hdv assms(15)] by (simp add: assms(15))
    ultimately show "list_all (\<lambda>b. okC (Block_forward b x') (\<lambda>y. shape y = shape x'))
                   (blocks (VisionTransformer_train mode m))
                 \<and> okC (run_blocks (blocks (VisionTransformer_train mode m)) x')
                     (\<lambda>y. shape y = shape x')" ..
  qed
qed


theorem forward_preserves_shape_witness:
  "okC (Attention_init 64 4 True 0 0)
     (\<lambda>a. okC (Attention_forward (Attention_train False a) (full [4, 17, 64] 0))
             (\<lambda>y. shape y = [4, 17, 64]))
   \<and> okC (MLP_init 64 (Some 256) None 0)
       (\<lambda>m. okC (MLP_forward (MLP_train False m) (full [4, 17, 64] 0)) (\<lambda>y. shape y = [4, 17, 64]))
   \<and> okC (Block_init 64 4 4 True 0 0 0)
       (\<lambda>b. okC (Block_forward (Block_train False b) (full [4, 17, 64] 0))
               (\<lambda>y. shape y = [4, 17, 64]))
   \<and> okC (VisionTransformer_init
            \<lparr>arg_img_size = 32, arg_patch_size = 8, arg_in_channels = 3, arg_n_classes = 10,
             arg_embed_dim = 64, arg_depth = 2, arg_n_heads = 4, arg_mlp_ratio = 4,
             arg_qkv_bias = True, arg_p = 0, arg_attn_p = 0, arg_proj_p = 0\<rparr>)
       (\<lambda>m. list_all (\<lambda>b. okC (Block_forward b (full [4, 17, 64] 0)) (\<lambda>y. shape y = [4, 17, 64]))
               (blocks (VisionTransformer_train False m))
             \<and> okC (run_blocks (blocks (VisionTransformer_train False m)) (full [4, 17, 64] 0))
                 (\<lambda>y. shape y = [4, 17, 64]))"
  using forward_preserves_shape
    [of 4 64 4 0 0 0 "Some 256" 256 None "full [4, 17, 64] 0" 4 17
        "\<lparr>arg_img_size = 32, arg_patch_size = 8, arg_in_channels = 3, arg_n_classes = 10,
          arg_embed_dim = 64, arg_depth = 2, arg_n_heads = 4, arg_mlp_ratio = 4,
          arg_qkv_bias = True, arg_p = 0, arg_attn_p = 0, arg_proj_p = 0\<rparr>"
        "full [4, 17, 64] 0" True False 0]
  by (simp add: valid_args_def args_in_range_def full_def or_default_def)

text \<open>
  C6. For \<open>0 < patch_size \<le> image_size\<close>, at least one input channel and
  \<open>0 < embed_dim\<close>, the patch embedding built by the constructor has \<open>n_patches = (image_size // patch_size)\<^sup>2\<close> and maps an input of shape
  \<open>(B, in_channels, image_size, image_size)\<close> to an output of shape
  \<open>(B, n_patches, embed_dim)\<close>. With \<open>g = image_size // patch_size\<close>, row \<open>k\<close> of the output
  is the projection, with the one weight and bias of the module, of the tile in row
  \<open>k div g\<close> and column \<open>k mod g\<close> of the grid: the tiles are numbered row by row. They do
  not overlap: a pixel row (or column) \<open>i * patch_size + u\<close> with \<open>u < patch_size\<close> lies in
  one tile row (or column) only.
\<close>

theorem PatchEmbedding_forward_patches:
  assumes "0 < p" and "p \<le> S" and "shape x = [B, C, S, S]" and "0 < C" and "0 < E"
  shows "okC (PatchEmbedding_init S p C E)
           (\<lambda>pe. n_patches pe = (S div p)\<^sup>2
                  \<and> okE (PatchEmbedding_forward pe x)
                      (\<lambda>y. shape y = [B, n_patches pe, E]
                           \<and> (\<forall>b k oc. b < B \<and> k < n_patches pe \<and> oc < E \<longrightarrow>
                                elem y [b, k, oc]
                                = project_patch (projection pe) C p x b
                                    (k div (S div p)) (k mod (S div p)) oc)))
       \<and> (\<forall>i i' u u'. u < p \<and> u' < p \<and> i * p + u = i' * p + u' \<longrightarrow> i = i' \<and> u = u')"
proof (intro conjI allI impI)
  fix i i' u u' :: nat
  assume a: "u < p \<and> u' < p \<and> i * p + u = i' * p + u'"
  then have u: "u < p" and u': "u' < p" and e: "i * p + u = i' * p + u'"
    by simp_all
  have "(i * p + u) div p = i" and "(i * p + u) mod p = u"
    using u by simp_all
  moreover have "(i' * p + u') div p = i'" and "(i' * p + u') mod p = u'"
    using u' by simp_all
  ultimately show "i = i'" and "u = u'"
    unfolding e by simp_all
next
  show "okC (PatchEmbedding_init S p C E)
           (\<lambda>pe. n_patches pe = (S div p)\<^sup>2
                  \<and> okE (PatchEmbedding_forward pe x)
                      (\<lambda>y. shape y = [B, n_patches pe, E]
                           \<and> (\<forall>b k oc. b < B \<and> k < n_patches pe \<and> oc < E \<longrightarrow>
                                elem y [b, k, oc]
                                = project_patch (projection pe) C p x b
                                    (k div (S div p)) (k mod (S div p)) oc)))"
proof (rule okC_weaken [OF PatchEmbedding_init_okC [OF assms(1)]])
  fix pe :: PatchEmbedding
  assume "Conv2d_ok C E p (projection pe) \<and> n_patches pe = (S div p)\<^sup>2
          \<and> img_size pe = S \<and> patch_size pe = p"
  then have conv: "Conv2d_ok C E p (projection pe)" and n: "n_patches pe = (S div p)\<^sup>2"
    by simp_all
  from PatchEmbedding_forward_eq [OF conv assms]
  show "n_patches pe = (S div p)\<^sup>2
        \<and> okE (PatchEmbedding_forward pe x)
            (\<lambda>y. shape y = [B, n_patches pe, E]
                 \<and> (\<forall>b k oc. b < B \<and> k < n_patches pe \<and> oc < E \<longrightarrow>
                      elem y [b, k, oc]
                      = project_patch (projection pe) C p x b
                          (k div (S div p)) (k mod (S div p)) oc))"
    using n by auto
qed
qed

theorem PatchEmbedding_forward_patches_witness:
  "okC (PatchEmbedding_init 32 8 3 64)
     (\<lambda>pe. n_patches pe = 16
            \<and> okE (PatchEmbedding_forward pe (tabulate [4, 3, 32, 32] (\<lambda>idx. real (idx ! 2 * 32 + idx ! 3))))
                (\<lambda>y. shape y = [4, n_patches pe, 64]
                     \<and> elem y [3, 6, 63]
                       = elem (conv_bias (projection pe)) [63]
                         + sum_list (map (\<lambda>ch. sum_list (map (\<lambda>u. sum_list (map (\<lambda>v.
                             elem (conv_weight (projection pe)) [63, ch, u, v]
                             * real ((8 + u) * 32 + (16 + v)))
                             [0..<8])) [0..<8])) [0..<3])))"
proof (rule okC_weaken [OF conjunct1 [OF PatchEmbedding_forward_patches
         [of 8 32 "(tabulate [4, 3, 32, 32] (\<lambda>idx. real (idx ! 2 * 32 + idx ! 3)))" 4 3 64]]])
  show "(0::nat) < 8" and "(8::nat) \<le> 32"
    and "shape (tabulate [4, 3, 32, 32] (\<lambda>idx. real (idx ! 2 * 32 + idx ! 3))) = [4, 3, 32, 32]"
    and "(0::nat) < 3" and "(0::nat) < 64"
    by simp_all
next
  fix pe :: PatchEmbedding
  assume a: "n_patches pe = (32 div 8)\<^sup>2
          \<and> okE (PatchEmbedding_forward pe (tabulate [4, 3, 32, 32] (\<lambda>idx. real (idx ! 2 * 32 + idx ! 3))))
              (\<lambda>y. shape y = [4, n_patches pe, 64]
                   \<and> (\<forall>b k oc. b < 4 \<and> k < n_patches pe \<and> oc < 64 \<longrightarrow>
                        elem y [b, k, oc]
                        = project_patch (projection pe) 3 8 (tabulate [4, 3, 32, 32] (\<lambda>idx. real (idx ! 2 * 32 + idx ! 3))) b
                            (k div (32 div 8)) (k mod (32 div 8)) oc))"
  then have n: "n_patches pe = 16" by simp
  from a obtain y where y: "PatchEmbedding_forward pe (tabulate [4, 3, 32, 32] (\<lambda>idx. real (idx ! 2 * 32 + idx ! 3))) = Inr y"
    and s: "shape y = [4, n_patches pe, 64]"
    and v: "\<forall>b k oc. b < 4 \<and> k < n_patches pe \<and> oc < 64 \<longrightarrow>
                        elem y [b, k, oc]
                        = project_patch (projection pe) 3 8 (tabulate [4, 3, 32, 32] (\<lambda>idx. real (idx ! 2 * 32 + idx ! 3))) b
                            (k div (32 div 8)) (k mod (32 div 8)) oc"
    by (auto dest!: okE_D)
  have px: "patch_pixel (tabulate [4, 3, 32, 32] (\<lambda>idx. real (idx ! 2 * 32 + idx ! 3))) 8 3 1 2 ch u v = real ((8 + u) * 32 + (16 + v))"
    if "ch \<in> set [0..<3]" and "u \<in> set [0..<8]" and "v \<in> set [0..<8]" for ch u v :: nat
    using that by (simp add: patch_pixel_def elem_tabulate)
  have "elem y [3, 6, 63] = project_patch (projection pe) 3 8 (tabulate [4, 3, 32, 32] (\<lambda>idx. real (idx ! 2 * 32 + idx ! 3))) 3
                            (6 div (32 div 8)) (6 mod (32 div 8)) 63"
    using v n by simp
  also have "\<dots> = project_patch (projection pe) 3 8 (tabulate [4, 3, 32, 32] (\<lambda>idx. real (idx ! 2 * 32 + idx ! 3))) 3 1 2 63"
    by simp
  also have "\<dots> = elem (conv_bias (projection pe)) [63]
                   + sum_list (map (\<lambda>ch. sum_list (map (\<lambda>u. sum_list (map (\<lambda>v.
                       elem (conv_weight (projection pe)) [63, ch, u, v]
                       * real ((8 + u) * 32 + (16 + v)))
                       [0..<8])) [0..<8])) [0..<3])"
    unfolding project_patch_def by (simp only: px cong: map_cong)
  finally show "n_patches pe = 16
            \<and> okE (PatchEmbedding_forward pe (tabulate [4, 3, 32, 32] (\<lambda>idx. real (idx ! 2 * 32 + idx ! 3))))
                (\<lambda>y. shape y = [4, n_patches pe, 64]
                     \<and> elem y [3, 6, 63]
                       = elem (conv_bias (projection pe)) [63]
                         + sum_list (map (\<lambda>ch. sum_list (map (\<lambda>u. sum_list (map (\<lambda>v.
                             elem (conv_weight (projection pe)) [63, ch, u, v]
                             * real ((8 + u) * 32 + (16 + v)))
                             [0..<8])) [0..<8])) [0..<3]))"
    using n y s by simp
qed

text \<open>
  C7. On an input with batch size \<open>B\<close>, \<open>VisionTransformer.forward\<close> is the pipeline of
  the eight stages in the order of the specification, for every model. A model built
  from a valid configuration has \<open>depth\<close> blocks, and its token sequence is formed as stated: after the
  classification token is prepended, position 0 of every batch element holds the
  classification token and position \<open>t + 1\<close> holds patch \<open>t\<close>; the positional embedding is
  then added once, the same for every batch element.
\<close>

theorem VisionTransformer_forward_stages:
  assumes "valid_args c"
    and "shape x = [B, arg_in_channels c, arg_img_size c, arg_img_size c]"
    and "n = (arg_img_size c div arg_patch_size c)\<^sup>2"
  shows "(\<forall>m. VisionTransformer_forward m x = vit_pipeline m B x)
       \<and> okC (VisionTransformer_init c)
           (\<lambda>m. length (blocks m) = arg_depth c
              \<and> okE (PatchEmbedding_forward (patch_embed m) x)
              (\<lambda>x1. okE (prepend_cls (cls_token m) B x1)
                 (\<lambda>x2. shape x2 = [B, n + 1, arg_embed_dim c]
                       \<and> (\<forall>b e. b < B \<and> e < arg_embed_dim c \<longrightarrow>
                            elem x2 [b, 0, e] = elem (cls_token m) [0, 0, e])
                       \<and> (\<forall>b t e. b < B \<and> t < n \<and> e < arg_embed_dim c \<longrightarrow>
                            elem x2 [b, t + 1, e] = elem x1 [b, t, e])
                       \<and> okE (add_t x2 (pos_embed m))
                           (\<lambda>x3. shape x3 = [B, n + 1, arg_embed_dim c]
                                 \<and> (\<forall>b t e. b < B \<and> t < n + 1 \<and> e < arg_embed_dim c \<longrightarrow>
                                      elem x3 [b, t, e]
                                      = elem x2 [b, t, e] + elem (pos_embed m) [0, t, e])))))"
proof (intro conjI allI)
  fix m
  show "VisionTransformer_forward m x = vit_pipeline m B x"
    by (rule VisionTransformer_forward_pipeline [OF assms(2)])
next
  have r: "args_in_range c" using assms(1) by (simp add: valid_args_def)
  then have p: "0 < arg_patch_size c" and ch: "0 < arg_in_channels c" "0 < arg_embed_dim c"
    by (simp_all add: args_in_range_def)
  show "okC (VisionTransformer_init c)
           (\<lambda>m. length (blocks m) = arg_depth c
              \<and> okE (PatchEmbedding_forward (patch_embed m) x)
              (\<lambda>x1. okE (prepend_cls (cls_token m) B x1)
                 (\<lambda>x2. shape x2 = [B, n + 1, arg_embed_dim c]
                       \<and> (\<forall>b e. b < B \<and> e < arg_embed_dim c \<longrightarrow>
                            elem x2 [b, 0, e] = elem (cls_token m) [0, 0, e])
                       \<and> (\<forall>b t e. b < B \<and> t < n \<and> e < arg_embed_dim c \<longrightarrow>
                            elem x2 [b, t + 1, e] = elem x1 [b, t, e])
                       \<and> okE (add_t x2 (pos_embed m))
                           (\<lambda>x3. shape x3 = [B, n + 1, arg_embed_dim c]
                                 \<and> (\<forall>b t e. b < B \<and> t < n + 1 \<and> e < arg_embed_dim c \<longrightarrow>
                                      elem x3 [b, t, e]
                                      = elem x2 [b, t, e] + elem (pos_embed m) [0, t, e])))))"
  proof (rule okC_weaken [OF VisionTransformer_init_okC [OF r valid_args_le(2) [OF assms(1)]]],
         intro conjI)
    fix m :: VisionTransformer
    assume a: "VisionTransformer_ok c m \<and> drop_p (pos_drop m) = arg_p c
                 \<and> n_patches (patch_embed m) = (arg_img_size c div arg_patch_size c)\<^sup>2
                 \<and> length (blocks m) = arg_depth c
                 \<and> list_all (\<lambda>b. scale (attn b) = real (arg_embed_dim c div arg_n_heads c) powr (- (1 / 2))
                               \<and> drop_p (attn_drop (attn b)) = arg_attn_p c
                               \<and> drop_p (proj_drop (attn b)) = arg_proj_p c
                               \<and> drop_p (mlp_drop (mlp b)) = 0) (blocks m)"
    then show "length (blocks m) = arg_depth c" by simp
    from a have ok: "VisionTransformer_ok c m" ..
    then have conv: "Conv2d_ok (arg_in_channels c) (arg_embed_dim c) (arg_patch_size c)
                       (projection (patch_embed m))"
      and cls: "shape (cls_token m) = [1, 1, arg_embed_dim c]"
      and pos: "shape (pos_embed m) = [1, n + 1, arg_embed_dim c]"
      by (simp_all add: VisionTransformer_ok_def assms(3))
    show "okE (PatchEmbedding_forward (patch_embed m) x)
              (\<lambda>x1. okE (prepend_cls (cls_token m) B x1)
                 (\<lambda>x2. shape x2 = [B, n + 1, arg_embed_dim c]
                       \<and> (\<forall>b e. b < B \<and> e < arg_embed_dim c \<longrightarrow>
                            elem x2 [b, 0, e] = elem (cls_token m) [0, 0, e])
                       \<and> (\<forall>b t e. b < B \<and> t < n \<and> e < arg_embed_dim c \<longrightarrow>
                            elem x2 [b, t + 1, e] = elem x1 [b, t, e])
                       \<and> okE (add_t x2 (pos_embed m))
                           (\<lambda>x3. shape x3 = [B, n + 1, arg_embed_dim c]
                                 \<and> (\<forall>b t e. b < B \<and> t < n + 1 \<and> e < arg_embed_dim c \<longrightarrow>
                                      elem x3 [b, t, e]
                                      = elem x2 [b, t, e] + elem (pos_embed m) [0, t, e]))))"
    proof (rule okE_weaken [OF PatchEmbedding_forward_okE
                                 [OF conv p valid_args_le(1) [OF assms(1)] assms(2) ch]])
      fix x1 :: tensor
      assume "shape x1 = [B, (arg_img_size c div arg_patch_size c)\<^sup>2, arg_embed_dim c]"
      then have x1: "shape x1 = [B, n, arg_embed_dim c]" by (simp add: assms(3))
      show "okE (prepend_cls (cls_token m) B x1)
                 (\<lambda>x2. shape x2 = [B, n + 1, arg_embed_dim c]
                       \<and> (\<forall>b e. b < B \<and> e < arg_embed_dim c \<longrightarrow>
                            elem x2 [b, 0, e] = elem (cls_token m) [0, 0, e])
                       \<and> (\<forall>b t e. b < B \<and> t < n \<and> e < arg_embed_dim c \<longrightarrow>
                            elem x2 [b, t + 1, e] = elem x1 [b, t, e])
                       \<and> okE (add_t x2 (pos_embed m))
                           (\<lambda>x3. shape x3 = [B, n + 1, arg_embed_dim c]
                                 \<and> (\<forall>b t e. b < B \<and> t < n + 1 \<and> e < arg_embed_dim c \<longrightarrow>
                                      elem x3 [b, t, e]
                                      = elem x2 [b, t, e] + elem (pos_embed m) [0, t, e])))"
      proof (rule okE_weaken [OF prepend_cls_values [OF cls x1]], intro conjI)
        fix x2 :: tensor
        assume a: "shape x2 = [B, n + 1, arg_embed_dim c]
                 \<and> (\<forall>b e. b < B \<and> e < arg_embed_dim c \<longrightarrow> elem x2 [b, 0, e] = elem (cls_token m) [0, 0, e])
                 \<and> (\<forall>b t e. b < B \<and> t < n \<and> e < arg_embed_dim c \<longrightarrow> elem x2 [b, t + 1, e] = elem x1 [b, t, e])"
        then show "shape x2 = [B, n + 1, arg_embed_dim c]"
          and "\<forall>b e. b < B \<and> e < arg_embed_dim c \<longrightarrow> elem x2 [b, 0, e] = elem (cls_token m) [0, 0, e]"
          and "\<forall>b t e. b < B \<and> t < n \<and> e < arg_embed_dim c \<longrightarrow> elem x2 [b, t + 1, e] = elem x1 [b, t, e]"
          by simp_all
        from a have "shape x2 = [B, n + 1, arg_embed_dim c]" ..
        then show "okE (add_t x2 (pos_embed m))
                           (\<lambda>x3. shape x3 = [B, n + 1, arg_embed_dim c]
                                 \<and> (\<forall>b t e. b < B \<and> t < n + 1 \<and> e < arg_embed_dim c \<longrightarrow>
                                      elem x3 [b, t, e]
                                      = elem x2 [b, t, e] + elem (pos_embed m) [0, t, e]))"
          by (rule add_pos_values [OF _ pos])
      qed
    qed
  qed
qed

theorem VisionTransformer_forward_stages_witness:
  "(\<forall>m. VisionTransformer_forward m (full [4, 3, 32, 32] 0) = vit_pipeline m 4 (full [4, 3, 32, 32] 0))
   \<and> okC (VisionTransformer_init
            \<lparr>arg_img_size = 32, arg_patch_size = 8, arg_in_channels = 3, arg_n_classes = 10,
             arg_embed_dim = 64, arg_depth = 2, arg_n_heads = 4, arg_mlp_ratio = 4,
             arg_qkv_bias = True, arg_p = 0, arg_attn_p = 0, arg_proj_p = 0\<rparr>)
       (\<lambda>m. length (blocks m) = 2
          \<and> okE (PatchEmbedding_forward (patch_embed m) (full [4, 3, 32, 32] 0))
          (\<lambda>x1. okE (prepend_cls (cls_token m) 4 x1)
             (\<lambda>x2. shape x2 = [4, 17, 64]
                   \<and> okE (add_t x2 (pos_embed m)) (\<lambda>x3. shape x3 = [4, 17, 64]))))"
proof -
  let ?c = "\<lparr>arg_img_size = 32, arg_patch_size = 8, arg_in_channels = 3, arg_n_classes = 10,
             arg_embed_dim = 64, arg_depth = 2, arg_n_heads = 4, arg_mlp_ratio = 4,
             arg_qkv_bias = True, arg_p = 0, arg_attn_p = 0, arg_proj_p = 0\<rparr>"
  have v: "valid_args ?c" by (simp add: valid_args_def args_in_range_def)
  have x: "shape (full [4, 3, 32, 32] 0) = [4, arg_in_channels ?c, arg_img_size ?c, arg_img_size ?c]"
    by simp
  have n: "(16::nat) = (arg_img_size ?c div arg_patch_size ?c)\<^sup>2" by simp
  note t = VisionTransformer_forward_stages [OF v x n]
  have "okC (VisionTransformer_init ?c)
       (\<lambda>m. length (blocks m) = 2
          \<and> okE (PatchEmbedding_forward (patch_embed m) (full [4, 3, 32, 32] 0))
          (\<lambda>x1. okE (prepend_cls (cls_token m) 4 x1)
             (\<lambda>x2. shape x2 = [4, 17, 64]
                   \<and> okE (add_t x2 (pos_embed m)) (\<lambda>x3. shape x3 = [4, 17, 64]))))"
    by (rule okC_weaken [OF conjunct2 [OF t]]) (auto elim!: okE_weaken)
  then show ?thesis using conjunct1 [OF t] by simp
qed

text \<open>
  C8 as the specification states it fails: with \<open>image_size = 5\<close> and \<open>patch_size = 8\<close>, which
  does not divide it, construction succeeds but the forward pass of the patch embedding,
  and so that of the model, raises \<open>RuntimeError\<close>: the kernel of the convolution is larger
  than the image.
\<close>

theorem indivisible_patch_counterexample:
  "\<not> (8::nat) dvd 5
   \<and> okC (PatchEmbedding_init 5 8 3 4)
       (\<lambda>pe. PatchEmbedding_forward pe (full [1, 3, 5, 5] 0) = Inl RuntimeError)
   \<and> okC (VisionTransformer_init
            \<lparr>arg_img_size = 5, arg_patch_size = 8, arg_in_channels = 3, arg_n_classes = 10,
             arg_embed_dim = 4, arg_depth = 1, arg_n_heads = 2, arg_mlp_ratio = 4,
             arg_qkv_bias = True, arg_p = 0, arg_attn_p = 0, arg_proj_p = 0\<rparr>)
       (\<lambda>m. \<forall>g. VisionTransformer_forward m (full [1, 3, 5, 5] 0) g = (Inl RuntimeError, g))"
proof (intro conjI)
  let ?c = "\<lparr>arg_img_size = 5, arg_patch_size = 8, arg_in_channels = 3, arg_n_classes = 10,
             arg_embed_dim = 4, arg_depth = 1, arg_n_heads = 2, arg_mlp_ratio = 4,
             arg_qkv_bias = True, arg_p = 0, arg_attn_p = 0, arg_proj_p = 0\<rparr>"
  show "\<not> (8::nat) dvd 5" by simp
  show "okC (PatchEmbedding_init 5 8 3 4)
       (\<lambda>pe. PatchEmbedding_forward pe (full [1, 3, 5, 5] 0) = Inl RuntimeError)"
  proof (rule okC_weaken [OF PatchEmbedding_init_okC])
    show "(0::nat) < 8" by simp
  next
    fix pe :: PatchEmbedding
    assume "Conv2d_ok 3 4 8 (projection pe) \<and> n_patches pe = (5 div 8)\<^sup>2
            \<and> img_size pe = 5 \<and> patch_size pe = 8"
    then have "Conv2d_ok 3 4 8 (projection pe)" ..
    then show "PatchEmbedding_forward pe (full [1, 3, 5, 5] 0) = Inl RuntimeError"
      by (rule PatchEmbedding_forward_small_image [where S = 5 and B = 1]) simp_all
  qed
  show "okC (VisionTransformer_init ?c)
       (\<lambda>m. \<forall>g. VisionTransformer_forward m (full [1, 3, 5, 5] 0) g = (Inl RuntimeError, g))"
  proof (rule okC_weaken [OF VisionTransformer_init_ok])
    show "args_in_range ?c" by (simp add: args_in_range_def)
    show "arg_n_heads ?c \<le> arg_embed_dim ?c" by simp
  next
    fix m :: VisionTransformer
    assume "VisionTransformer_ok ?c m"
    then show "\<forall>g. VisionTransformer_forward m (full [1, 3, 5, 5] 0) g = (Inl RuntimeError, g)"
      by (intro allI VisionTransformer_forward_small_image [where c = ?c and B = 1]) simp_all
  qed
qed

text \<open>
  C8, amended. If \<open>patch_size\<close> does not divide \<open>image_size\<close> but is not larger than it
  (and the other arguments are valid), construction succeeds, the patch embedding returns a
  sequence of \<open>(image_size // patch_size)\<^sup>2\<close> patches, the forward pass of the model returns
  \<open>(B, n_classes)\<close>, and no error is raised. The truncation is silent: two images that agree
  on the first \<open>(image_size // patch_size) * patch_size\<close> rows and columns have the same patch
  embedding.
\<close>

theorem indivisible_patch_truncates:
  assumes "args_in_range c"
    and "arg_patch_size c \<le> arg_img_size c"
    and "\<not> arg_patch_size c dvd arg_img_size c"
    and "arg_n_heads c dvd arg_embed_dim c"
    and "shape x = [B, arg_in_channels c, arg_img_size c, arg_img_size c]"
    and "shape x' = [B, arg_in_channels c, arg_img_size c, arg_img_size c]"
    and "\<forall>b ch i j. b < B \<and> ch < arg_in_channels c
            \<and> i < arg_img_size c div arg_patch_size c * arg_patch_size c
            \<and> j < arg_img_size c div arg_patch_size c * arg_patch_size c
            \<longrightarrow> elem x [b, ch, i, j] = elem x' [b, ch, i, j]"
  shows "okC (VisionTransformer_init c)
           (\<lambda>m. n_patches (patch_embed m) = (arg_img_size c div arg_patch_size c)\<^sup>2
                 \<and> okE (PatchEmbedding_forward (patch_embed m) x)
                     (\<lambda>y. shape y = [B, (arg_img_size c div arg_patch_size c)\<^sup>2, arg_embed_dim c])
                 \<and> PatchEmbedding_forward (patch_embed m) x = PatchEmbedding_forward (patch_embed m) x'
                 \<and> okC (VisionTransformer_forward (VisionTransformer_train mode m) x)
                     (\<lambda>y. shape y = [B, arg_n_classes c]))"
proof -
  have p: "0 < arg_patch_size c" and E: "0 < arg_embed_dim c" and C: "0 < arg_in_channels c"
    using assms(1) by (simp_all add: args_in_range_def)
  have h: "arg_n_heads c \<le> arg_embed_dim c"
    using assms(4) E by (rule dvd_imp_le)
  show ?thesis
  proof (rule okC_weaken [OF VisionTransformer_init_okC [OF assms(1) h]], intro conjI)
    fix m :: VisionTransformer
    assume a: "VisionTransformer_ok c m \<and> drop_p (pos_drop m) = arg_p c
                 \<and> n_patches (patch_embed m) = (arg_img_size c div arg_patch_size c)\<^sup>2
                 \<and> length (blocks m) = arg_depth c
                 \<and> list_all (\<lambda>b. scale (attn b) = real (arg_embed_dim c div arg_n_heads c) powr (- (1 / 2))
                               \<and> drop_p (attn_drop (attn b)) = arg_attn_p c
                               \<and> drop_p (proj_drop (attn b)) = arg_proj_p c
                               \<and> drop_p (mlp_drop (mlp b)) = 0) (blocks m)"
    then have ok: "VisionTransformer_ok c m" ..
    then have conv: "Conv2d_ok (arg_in_channels c) (arg_embed_dim c) (arg_patch_size c)
                       (projection (patch_embed m))"
      by (simp add: VisionTransformer_ok_def)
    show "n_patches (patch_embed m) = (arg_img_size c div arg_patch_size c)\<^sup>2"
      using a by simp
    show "okE (PatchEmbedding_forward (patch_embed m) x)
            (\<lambda>y. shape y = [B, (arg_img_size c div arg_patch_size c)\<^sup>2, arg_embed_dim c])"
      by (rule PatchEmbedding_forward_okE [OF conv p assms(2,5) C E])
    show "PatchEmbedding_forward (patch_embed m) x = PatchEmbedding_forward (patch_embed m) x'"
      by (rule PatchEmbedding_forward_truncates [OF conv p assms(2,5,6) _ C E]) (simp add: assms(7))
    have "VisionTransformer_ok c (VisionTransformer_train mode m)" using ok by simp
    then show "okC (VisionTransformer_forward (VisionTransformer_train mode m) x)
                 (\<lambda>y. shape y = [B, arg_n_classes c])"
      by (rule VisionTransformer_forward_okC [OF _ p assms(2,4,5) C E])
  qed
qed

theorem indivisible_patch_truncates_witness:
  "okC (VisionTransformer_init
          \<lparr>arg_img_size = 30, arg_patch_size = 8, arg_in_channels = 3, arg_n_classes = 10,
           arg_embed_dim = 64, arg_depth = 2, arg_n_heads = 4, arg_mlp_ratio = 4,
           arg_qkv_bias = True, arg_p = 0, arg_attn_p = 0, arg_proj_p = 0\<rparr>)
     (\<lambda>m. n_patches (patch_embed m) = 9
           \<and> okE (PatchEmbedding_forward (patch_embed m) (full [4, 3, 30, 30] 0))
               (\<lambda>y. shape y = [4, 9, 64])
           \<and> PatchEmbedding_forward (patch_embed m) (full [4, 3, 30, 30] 0)
               = PatchEmbedding_forward (patch_embed m) (full [4, 3, 30, 30] 0)
           \<and> okC (VisionTransformer_forward (VisionTransformer_train False m) (full [4, 3, 30, 30] 0))
               (\<lambda>y. shape y = [4, 10]))"
  using indivisible_patch_truncates
    [of "\<lparr>arg_img_size = 30, arg_patch_size = 8, arg_in_channels = 3, arg_n_classes = 10,
           arg_embed_dim = 64, arg_depth = 2, arg_n_heads = 4, arg_mlp_ratio = 4,
           arg_qkv_bias = True, arg_p = 0, arg_attn_p = 0, arg_proj_p = 0\<rparr>"
        "full [4, 3, 30, 30] 0" 4 "full [4, 3, 30, 30] 0" False]
  by (simp add: args_in_range_def full_def)

text \<open>
  C9. A call of the model never changes the module, in any mode. In inference mode it
  also leaves the generator as it was, so the whole state is unchanged; its result does
  not depend on the generator state, and a second call on the same input, from the state
  the first call left, returns the same result.
\<close>

theorem call_forward_stateless:
  "model (snd (call_forward x s)) = model s
   \<and> snd (call_forward x \<lparr>model = VisionTransformer_train False m, generator = g\<rparr>)
       = \<lparr>model = VisionTransformer_train False m, generator = g\<rparr>
   \<and> fst (call_forward x \<lparr>model = VisionTransformer_train False m, generator = g'\<rparr>)
       = fst (call_forward x \<lparr>model = VisionTransformer_train False m, generator = g\<rparr>)
   \<and> fst (call_forward x
            (snd (call_forward x \<lparr>model = VisionTransformer_train False m, generator = g\<rparr>)))
       = fst (call_forward x \<lparr>model = VisionTransformer_train False m, generator = g\<rparr>)"
proof -
  obtain r where r: "\<And>g. VisionTransformer_forward (VisionTransformer_train False m) x g = (r, g)"
    using stateless_VisionTransformer_eval [of m x] by (auto simp add: stateless_def)
  have "model (snd (call_forward x s)) = model s"
    by (simp add: call_forward_def split: prod.splits)
  then show ?thesis
    by (simp add: call_forward_def r)
qed

text \<open>
  C10. Whatever arguments the constructors are given, the block (and every block of the
  model) they return has an MLP whose dropout has probability 0: that dropout returns
  its input and draws nothing in training mode as in inference mode, so the MLP is its
  two linear layers around the activation. The dropout probabilities that follow the
  arguments are the positional one (\<open>p\<close>), the one on the attention weights
  (\<open>attn_p\<close>) and the one on the output projection (\<open>proj_p\<close>).
\<close>

theorem mlp_dropout_not_configurable:
  assumes "Block_init d h r qb q ap pp g0 = (Inr b0, g1)"
    and "VisionTransformer_init c g = (Inr m, g')"
  shows "drop_p (mlp_drop (mlp b0)) = 0
       \<and> drop_p (attn_drop (attn b0)) = ap \<and> drop_p (proj_drop (attn b0)) = pp
       \<and> drop_p (pos_drop m) = arg_p c
       \<and> list_all (\<lambda>b. drop_p (mlp_drop (mlp b)) = 0
                        \<and> drop_p (attn_drop (attn b)) = arg_attn_p c
                        \<and> drop_p (proj_drop (attn b)) = arg_proj_p c
                        \<and> (\<forall>mode x. Dropout_forward (mlp_drop (mlp (Block_train mode b))) x = returnC x)
                        \<and> (\<forall>mode x. MLP_forward (mlp (Block_train mode b)) x
                              = liftC (bindE (Linear_forward (fc1 (mlp b)) x)
                                         (\<lambda>x1. Linear_forward (fc2 (mlp b)) (apply_act (act (mlp b)) x1)))))
           (blocks m)"
proof -
  have id: "(\<forall>mode x. Dropout_forward (mlp_drop (mlp (Block_train mode b))) x = returnC x)
          \<and> (\<forall>mode x. MLP_forward (mlp (Block_train mode b)) x
                = liftC (bindE (Linear_forward (fc1 (mlp b)) x)
                           (\<lambda>x1. Linear_forward (fc2 (mlp b)) (apply_act (act (mlp b)) x1))))"
    if "drop_p (mlp_drop (mlp b)) = 0" for b
  proof -
    have p0: "drop_p (mlp_drop (mlp (Block_train mode b))) = 0" for mode
      using that by (simp add: Block_train_def MLP_train_def)
    have "MLP_forward (mlp (Block_train mode b)) x
          = liftC (bindE (Linear_forward (fc1 (mlp b)) x)
                     (\<lambda>x1. Linear_forward (fc2 (mlp b)) (apply_act (act (mlp b)) x1)))" for mode x
      using MLP_forward_p0 [OF p0, of mode x] by (simp add: Block_train_def MLP_train_def)
    then show ?thesis using Dropout_forward_p0 [OF p0] by simp
  qed
  have "list_all (\<lambda>b. drop_p (mlp_drop (mlp b)) = 0 \<and> training (mlp_drop (mlp b))
                          \<and> drop_p (attn_drop (attn b)) = arg_attn_p c
                          \<and> drop_p (proj_drop (attn b)) = arg_proj_p c) (blocks m)"
    using VisionTransformer_init_D [OF assms(2)] by simp
  then have "list_all (\<lambda>b. drop_p (mlp_drop (mlp b)) = 0
                        \<and> drop_p (attn_drop (attn b)) = arg_attn_p c
                        \<and> drop_p (proj_drop (attn b)) = arg_proj_p c
                        \<and> (\<forall>mode x. Dropout_forward (mlp_drop (mlp (Block_train mode b))) x = returnC x)
                        \<and> (\<forall>mode x. MLP_forward (mlp (Block_train mode b)) x
                              = liftC (bindE (Linear_forward (fc1 (mlp b)) x)
                                         (\<lambda>x1. Linear_forward (fc2 (mlp b)) (apply_act (act (mlp b)) x1)))))
           (blocks m)"
    by (rule list_all_weaken) (use id in blast)
  then show ?thesis
    using Block_init_D [OF assms(1)] VisionTransformer_init_D [OF assms(2)] by simp
qed

theorem mlp_dropout_not_configurable_witness:
  "\<exists>b0 g1 m g'.
     Block_init 64 4 4 True (1 / 2) (1 / 4) (1 / 8) (\<lambda>n. 0) = (Inr b0, g1)
   \<and> VisionTransformer_init
        \<lparr>arg_img_size = 32, arg_patch_size = 8, arg_in_channels = 3, arg_n_classes = 10,
         arg_embed_dim = 64, arg_depth = 2, arg_n_heads = 4, arg_mlp_ratio = 4,
         arg_qkv_bias = True, arg_p = 1 / 2, arg_attn_p = 1 / 4, arg_proj_p = 1 / 8\<rparr> (\<lambda>n. 0)
       = (Inr m, g')
   \<and> drop_p (mlp_drop (mlp b0)) = 0 \<and> drop_p (pos_drop m) = 1 / 2
   \<and> list_all (\<lambda>b. drop_p (mlp_drop (mlp b)) = 0 \<and> drop_p (attn_drop (attn b)) = 1 / 4
                    \<and> drop_p (proj_drop (attn b)) = 1 / 8) (blocks m)"
proof -
  let ?c = "\<lparr>arg_img_size = 32, arg_patch_size = 8, arg_in_channels = 3, arg_n_classes = 10,
         arg_embed_dim = 64, arg_depth = 2, arg_n_heads = 4, arg_mlp_ratio = 4,
         arg_qkv_bias = True, arg_p = 1 / 2, arg_attn_p = 1 / 4, arg_proj_p = 1 / 8\<rparr>"
  have "okC (Block_init 64 4 4 True (1 / 2) (1 / 4) (1 / 8)) (\<lambda>b. True)"
    by (rule okC_weaken [OF Block_init_okC]) simp_all
  then obtain b0 g1 where b: "Block_init 64 4 4 True (1 / 2) (1 / 4) (1 / 8) (\<lambda>n. 0) = (Inr b0, g1)"
    by (blast dest: okC_D)
  have "okC (VisionTransformer_init ?c) (\<lambda>m. True)"
    by (rule okC_weaken [OF VisionTransformer_init_okC]) (simp_all add: args_in_range_def)
  then obtain m g' where m: "VisionTransformer_init ?c (\<lambda>n. 0) = (Inr m, g')"
    by (blast dest: okC_D)
  from mlp_dropout_not_configurable [OF b m]
  have "drop_p (mlp_drop (mlp b0)) = 0 \<and> drop_p (pos_drop m) = 1 / 2
   \<and> list_all (\<lambda>b. drop_p (mlp_drop (mlp b)) = 0 \<and> drop_p (attn_drop (attn b)) = 1 / 4
                    \<and> drop_p (proj_drop (attn b)) = 1 / 8) (blocks m)"
    by (auto elim: list_all_weaken)
  with b m show ?thesis by blast
qed


end
